theory Spec2Isabelle
  imports Main
begin

section \<open>Values exchanged with the remote service\<close>

text \<open>
  Decoded JSON, as Python's \<^verbatim>\<open>json\<close> module hands it to the program: \<^verbatim>\<open>None\<close>,
  \<^verbatim>\<open>bool\<close>, \<^verbatim>\<open>int\<close>, \<^verbatim>\<open>str\<close>, \<^verbatim>\<open>list\<close> and \<^verbatim>\<open>dict\<close> (a dict keeps
  insertion order, so it is an association list). JSON numbers with a fraction or an
  exponent (Python floats) are outside the model. The same type stands for the Python
  value \<^verbatim>\<open>strategy_id\<close>, which is an \<^verbatim>\<open>int\<close> in \<^verbatim>\<open>main\<close> and may be a \<^verbatim>\<open>str\<close>.
\<close>

datatype json =
    JNull
  | JBool bool
  | JInt int
  | JStr string
  | JArr "json list"
  | JObj "(string \<times> json) list"

text \<open>
  The calls \<^verbatim>\<open>html.parser.HTMLParser.feed\<close> makes on the handlers of a subclass:
  \<^verbatim>\<open>handle_starttag(tag, attrs)\<close>, \<^verbatim>\<open>handle_endtag(tag)\<close>, \<^verbatim>\<open>handle_data(data)\<close>.
  An attribute without a value has the value \<^verbatim>\<open>None\<close>.
\<close>

datatype html_event =
    StartTag string "(string \<times> string option) list"
  | EndTag string
  | Data string

text \<open>
  A \<^verbatim>\<open>requests.Response\<close>: its status code, its \<^verbatim>\<open>text\<close> (field \<open>body_text\<close>), what \<^verbatim>\<open>response.json()\<close>
  returns (\<open>None\<close> when it raises), the handler calls the standard tokenizer makes
  when \<^verbatim>\<open>text\<close> is fed to an \<^verbatim>\<open>HTMLParser\<close> (\<open>None\<close> when \<^verbatim>\<open>feed\<close> raises, as it does on
  some malformed declarations), and the number the regular expressions
  of \<^verbatim>\<open>fetch_wallet_running_count\<close> find in \<^verbatim>\<open>text\<close>: \<^verbatim>\<open>int(match.group(1))\<close> for the
  first of its four patterns that \<^verbatim>\<open>re.search\<close> matches, \<open>None\<close> when none does.
\<close>

record response =
  status_code :: int
  body_text :: string
  json_body :: "json option"
  html_events :: "html_event list option"
  running_match :: "int option"

text \<open>One HTTP request either raises (no response at all) or returns a response.\<close>

datatype outcome = Raises | Returns response

datatype http_method = GET | POST

text \<open>
  The lines appended to \<^verbatim>\<open>error_details\<close> and the messages handed to
  \<^verbatim>\<open>send_telegram_message\<close>, by the place that produces them and the values formatted
  into them: the command (\<^verbatim>\<open>STOP\<close> or \<^verbatim>\<open>START\<close>), the iteration \<^verbatim>\<open>i+1\<close>, \<^verbatim>\<open>NUM_TOGGLES\<close>,
  and the status shown (\<open>None\<close> is the text \<^verbatim>\<open>no response\<close>).
\<close>

datatype detail =
    JsonParseDetail string
  | FailedDetail string int int "int option"
  | FinalStopDetail "int option"
  | ResponseDetail string

datatype notice =
    DecodeFailed
  | ValidationStatus int
  | ValidationException
  | JsonParseError string
  | CommandFailed string int int "int option"
  | RunFailed "detail list"
  | RunSucceeded int "int option"
  | CriticalError

text \<open>
  Everything the program does to the outside world, in order: an HTTP request of the
  session (method, URL, JSON body; the cookies and headers the session adds are not
  recorded), a \<^verbatim>\<open>time.sleep\<close>, a call of \<^verbatim>\<open>send_telegram_message\<close>. Two markers record
  calls: \<open>Toggle\<close> one call of \<^verbatim>\<open>toggle_strategy\<close> (one command, whatever the number of
  POST attempts it takes), \<open>WalletLookup\<close> one call of \<^verbatim>\<open>fetch_wallet_running_count\<close>.
\<close>

datatype event =
    Request http_method string "json option"
  | Sleep int
  | Toggle string
  | WalletLookup
  | Notify notice

text \<open>
  The world: how many HTTP requests have been sent so far, and the trace. The transport
  is a script: the \<open>n\<close>-th request of the run gets the outcome \<open>net n\<close>.
\<close>

record world =
  sent :: nat
  trace :: "event list"

type_synonym transport = "nat \<Rightarrow> outcome"

definition emit :: "event \<Rightarrow> world \<Rightarrow> world" where
  "emit e w = w\<lparr>trace := trace w @ [e]\<rparr>"

definition http_request ::
  "transport \<Rightarrow> http_method \<Rightarrow> string \<Rightarrow> json option \<Rightarrow> world \<Rightarrow> outcome \<times> world" where
  "http_request net m url body w =
     (net (sent w), w\<lparr>sent := Suc (sent w), trace := trace w @ [Request m url body]\<rparr>)"

section \<open>The command executor: \<^verbatim>\<open>toggle_strategy\<close>\<close>

definition toggle_url :: string where
  "toggle_url = ''https://tradetron.tech/api/deployed/status''"

definition toggle_payload :: "json \<Rightarrow> string \<Rightarrow> json" where
  "toggle_payload strategy_id status = JObj [(''status'', JStr status), (''id'', strategy_id)]"

text \<open>
  The loop \<^verbatim>\<open>for attempt in range(1, retries + 1)\<close>, entered at \<open>attempt\<close> with the
  current \<^verbatim>\<open>last_response\<close>. Falling out of the loop returns \<^verbatim>\<open>last_response\<close>.
  \<^verbatim>\<open>time.sleep\<close> raises \<^verbatim>\<open>ValueError\<close> on a negative argument; \<^verbatim>\<open>backoff_seconds\<close> and
  the delay between commands are non-negative integers (the configuration interface of
  the spec, and the defaults of the code), hence of type \<open>nat\<close>.
\<close>

function toggle_attempts ::
  "transport \<Rightarrow> json \<Rightarrow> int \<Rightarrow> nat \<Rightarrow> int \<Rightarrow> response option \<Rightarrow> world
     \<Rightarrow> response option \<times> world" where
  "toggle_attempts net payload retries backoff_seconds attempt last_response w =
     (if retries < attempt then (last_response, w)
      else
        let out = fst (http_request net POST toggle_url (Some payload) w);
            w1 = snd (http_request net POST toggle_url (Some payload) w)
        in case out of
             Raises \<Rightarrow>
               if attempt < retries
               then toggle_attempts net payload retries backoff_seconds (attempt + 1)
                      last_response (emit (Sleep (int backoff_seconds * attempt)) w1)
               else (None, w1)
           | Returns response \<Rightarrow>
               if status_code response < 500 then (Some response, w1)
               else toggle_attempts net payload retries backoff_seconds (attempt + 1)
                      (Some response)
                      (if attempt < retries
                       then emit (Sleep (int backoff_seconds * attempt)) w1 else w1))"
  by pat_completeness auto
termination
  by (relation "measure (\<lambda>(net, payload, retries, backoff_seconds, attempt, last_response, w).
                  nat (retries + 1 - attempt))") auto

definition toggle_strategy ::
  "transport \<Rightarrow> json \<Rightarrow> string \<Rightarrow> int \<Rightarrow> nat \<Rightarrow> world \<Rightarrow> response option \<times> world" where
  "toggle_strategy net strategy_id status retries backoff_seconds w =
     toggle_attempts net (toggle_payload strategy_id status) retries backoff_seconds 1 None
       (emit (Toggle status) w)"

section \<open>Python built-ins the program relies on\<close>

text \<open>
  Strings are lists of characters with code points below 256. Truth value of a decoded
  JSON value (\<^verbatim>\<open>if data:\<close>): \<^verbatim>\<open>None\<close>, \<^verbatim>\<open>False\<close>, \<^verbatim>\<open>0\<close> and the empty string, list and
  dict are false.
\<close>

fun truthy :: "json \<Rightarrow> bool" where
  "truthy JNull = False"
| "truthy (JBool b) = b"
| "truthy (JInt i) = (i \<noteq> 0)"
| "truthy (JStr s) = (s \<noteq> [])"
| "truthy (JArr xs) = (xs \<noteq> [])"
| "truthy (JObj kvs) = (kvs \<noteq> [])"

text \<open>
  \<^verbatim>\<open>bool(response)\<close> of a \<^verbatim>\<open>requests.Response\<close> is its \<^verbatim>\<open>ok\<close> property: false when the
  status code is in the range 400 to 599.
\<close>

definition response_ok :: "response \<Rightarrow> bool" where
  "response_ok r = (\<not> (400 \<le> status_code r \<and> status_code r < 600))"

text \<open>\<^verbatim>\<open>str.isspace\<close> on one character, and \<^verbatim>\<open>str.strip()\<close>.\<close>

definition py_isspace :: "char \<Rightarrow> bool" where
  "py_isspace c =
     (let n = (of_char c :: nat)
      in (9 \<le> n \<and> n \<le> 13) \<or> (28 \<le> n \<and> n \<le> 32) \<or> n = 133 \<or> n = 160)"

definition py_strip :: "string \<Rightarrow> string" where
  "py_strip s = rev (dropWhile py_isspace (rev (dropWhile py_isspace s)))"

text \<open>The substring test \<^verbatim>\<open>needle in haystack\<close> on strings.\<close>

fun starts_with :: "string \<Rightarrow> string \<Rightarrow> bool" where
  "starts_with [] s = True"
| "starts_with (p # ps) [] = False"
| "starts_with (p # ps) (c # cs) = (p = c \<and> starts_with ps cs)"

fun py_in :: "string \<Rightarrow> string \<Rightarrow> bool" where
  "py_in needle [] = (needle = [])"
| "py_in needle (c # cs) = (starts_with needle (c # cs) \<or> py_in needle cs)"

text \<open>\<^verbatim>\<open>str\<close> of an \<^verbatim>\<open>int\<close>: decimal digits, with a minus sign when negative.\<close>

fun digits :: "nat \<Rightarrow> string" where
  "digits n =
     (if n < 10 then [''0123456789'' ! n]
      else digits (n div 10) @ [''0123456789'' ! (n mod 10)])"

declare digits.simps [simp del]

definition str_int :: "int \<Rightarrow> string" where
  "str_int i = (if i < 0 then CHR ''-'' # digits (nat (- i)) else digits (nat i))"

text \<open>
  \<^verbatim>\<open>repr\<close> of a \<^verbatim>\<open>str\<close>: single quotes, or double quotes when the string has a single
  quote and no double quote; the quote and the backslash are escaped, tab, newline and
  carriage return are written \<^verbatim>\<open>\t\<close>, \<^verbatim>\<open>\n\<close>, \<^verbatim>\<open>\r\<close>, and every other non-printable
  character as \<^verbatim>\<open>\xNN\<close>.
\<close>

definition hex_digit :: "nat \<Rightarrow> char" where
  "hex_digit d = ''0123456789abcdef'' ! d"

definition py_printable :: "char \<Rightarrow> bool" where
  "py_printable c =
     (let n = (of_char c :: nat)
      in \<not> (n < 32 \<or> (127 \<le> n \<and> n \<le> 160) \<or> n = 173))"

definition repr_char :: "char \<Rightarrow> char \<Rightarrow> string" where
  "repr_char quote c =
     (if c = quote \<or> c = CHR 0x5C then [CHR 0x5C, c]
      else if c = CHR 0x09 then [CHR 0x5C, CHR ''t'']
      else if c = CHR 0x0A then [CHR 0x5C, CHR ''n'']
      else if c = CHR 0x0D then [CHR 0x5C, CHR ''r'']
      else if py_printable c then [c]
      else [CHR 0x5C, CHR ''x'', hex_digit ((of_char c :: nat) div 16),
            hex_digit ((of_char c :: nat) mod 16)])"

definition repr_str :: "string \<Rightarrow> string" where
  "repr_str s =
     (let quote = (if CHR 0x27 \<in> set s \<and> CHR 0x22 \<notin> set s then CHR 0x22 else CHR 0x27)
      in quote # concat (map (repr_char quote) s) @ [quote])"

text \<open>
  \<^verbatim>\<open>repr\<close> of a decoded JSON value; a list is \<^verbatim>\<open>[a, b]\<close> and a dict \<^verbatim>\<open>{k: v, k: v}\<close> with
  the \<^verbatim>\<open>repr\<close> of each part. \<^verbatim>\<open>str\<close> differs from \<^verbatim>\<open>repr\<close> on a string only.
\<close>

fun py_repr :: "json \<Rightarrow> string"
  and repr_items :: "json list \<Rightarrow> string"
  and repr_pairs :: "(string \<times> json) list \<Rightarrow> string" where
  "py_repr JNull = ''None''"
| "py_repr (JBool b) = (if b then ''True'' else ''False'')"
| "py_repr (JInt i) = str_int i"
| "py_repr (JStr s) = repr_str s"
| "py_repr (JArr xs) = ''['' @ repr_items xs @ '']''"
| "py_repr (JObj kvs) = ''{'' @ repr_pairs kvs @ ''}''"
| "repr_items [] = []"
| "repr_items (x # xs) = py_repr x @ (if xs = [] then [] else '', '' @ repr_items xs)"
| "repr_pairs [] = []"
| "repr_pairs (kv # kvs) =
     repr_str (fst kv) @ '': '' @ py_repr (snd kv)
       @ (if kvs = [] then [] else '', '' @ repr_pairs kvs)"

definition py_str :: "json \<Rightarrow> string" where
  "py_str v = (case v of JStr s \<Rightarrow> s | _ \<Rightarrow> py_repr v)"

text \<open>
  \<^verbatim>\<open>int(v)\<close> on a decoded JSON value, \<open>None\<close> when it raises (\<^verbatim>\<open>TypeError\<close> on \<^verbatim>\<open>None\<close>, a
  list or a dict, \<^verbatim>\<open>ValueError\<close> on a string that is not an integer literal). A string
  is stripped, may carry one sign, and is decimal digits with single underscores
  allowed between digits. The white space \<^verbatim>\<open>int\<close> skips at both ends is narrower than that
  of \<^verbatim>\<open>str.strip\<close>: the separators \<^verbatim>\<open>\x1c\<close> to \<^verbatim>\<open>\x1f\<close> are not skipped.
\<close>

definition int_isspace :: "char \<Rightarrow> bool" where
  "int_isspace c =
     (let n = (of_char c :: nat)
      in (9 \<le> n \<and> n \<le> 13) \<or> n = 32 \<or> n = 133 \<or> n = 160)"

definition int_strip :: "string \<Rightarrow> string" where
  "int_strip s = rev (dropWhile int_isspace (rev (dropWhile int_isspace s)))"

definition is_digit :: "char \<Rightarrow> bool" where
  "is_digit c = (48 \<le> (of_char c :: nat) \<and> (of_char c :: nat) \<le> 57)"

fun int_digits :: "nat \<Rightarrow> string \<Rightarrow> nat option" where
  "int_digits acc [] = Some acc"
| "int_digits acc (c # cs) =
     (if is_digit c then int_digits (acc * 10 + ((of_char c :: nat) - 48)) cs
      else if c = CHR ''_'' \<and> cs \<noteq> [] \<and> is_digit (hd cs) then int_digits acc cs
      else None)"

definition int_unsigned :: "string \<Rightarrow> nat option" where
  "int_unsigned s = (if s \<noteq> [] \<and> is_digit (hd s) then int_digits 0 s else None)"

definition int_of_str :: "string \<Rightarrow> int option" where
  "int_of_str s =
     (case int_strip s of
        [] \<Rightarrow> None
      | c # cs \<Rightarrow>
          if c = CHR ''-'' then map_option (\<lambda>n. - int n) (int_unsigned cs)
          else if c = CHR ''+'' then map_option int (int_unsigned cs)
          else map_option int (int_unsigned (c # cs)))"

fun py_int :: "json \<Rightarrow> int option" where
  "py_int (JInt i) = Some i"
| "py_int (JBool b) = Some (if b then 1 else 0)"
| "py_int (JStr s) = int_of_str s"
| "py_int JNull = None"
| "py_int (JArr xs) = None"
| "py_int (JObj kvs) = None"

section \<open>The markup fallback: \<^verbatim>\<open>StatusHTMLParser\<close> and \<^verbatim>\<open>fetch_status_from_html\<close>\<close>

record parser_state =
  strategy_id :: string
  in_target :: bool
  target_depth :: int
  awaiting_status_span :: bool
  capture_status :: bool
  status :: string

text \<open>\<^verbatim>\<open>StatusHTMLParser(strategy_id)\<close>; the constructor stores \<^verbatim>\<open>str(strategy_id)\<close>.\<close>

definition new_parser :: "json \<Rightarrow> parser_state" where
  "new_parser sid =
     \<lparr>strategy_id = py_str sid, in_target = False, target_depth = 0,
      awaiting_status_span = False, capture_status = False, status = []\<rparr>"

text \<open>
  \<^verbatim>\<open>dict(attrs).get("id", "")\<close>: the last \<^verbatim>\<open>id\<close> attribute wins; the result is \<^verbatim>\<open>None\<close> for an
  attribute without a value and the empty string when there is no such attribute.
\<close>

definition element_id :: "(string \<times> string option) list \<Rightarrow> string option" where
  "element_id attrs = (case map_of (rev attrs) ''id'' of None \<Rightarrow> Some [] | Some v \<Rightarrow> v)"

definition handle_starttag ::
  "parser_state \<Rightarrow> string \<Rightarrow> (string \<times> string option) list \<Rightarrow> parser_state" where
  "handle_starttag ps tag attrs =
     (if tag = ''div'' \<and>
         (case element_id attrs of
            None \<Rightarrow> False
          | Some eid \<Rightarrow> eid \<noteq> [] \<and> py_in (strategy_id ps) eid \<and> \<not> in_target ps)
      then ps\<lparr>in_target := True, target_depth := 1\<rparr>
      else if in_target ps
      then (let ps1 = ps\<lparr>target_depth := target_depth ps + 1\<rparr>
            in if tag = ''span'' \<and> awaiting_status_span ps1 \<and> status ps1 = []
               then ps1\<lparr>capture_status := True\<rparr> else ps1)
      else ps)"

definition handle_endtag :: "parser_state \<Rightarrow> string \<Rightarrow> parser_state" where
  "handle_endtag ps tag =
     (if in_target ps
      then (let ps1 = ps\<lparr>target_depth := target_depth ps - 1\<rparr>;
                ps2 = (if capture_status ps1 \<and> tag = ''span''
                       then ps1\<lparr>capture_status := False, awaiting_status_span := False\<rparr>
                       else ps1)
            in if target_depth ps2 \<le> 0
               then ps2\<lparr>in_target := False, target_depth := 0\<rparr> else ps2)
      else ps)"

definition handle_data :: "parser_state \<Rightarrow> string \<Rightarrow> parser_state" where
  "handle_data ps data =
     (if \<not> in_target ps then ps
      else let text = py_strip data
           in if text = [] then ps
              else if py_in ''Status'' text then ps\<lparr>awaiting_status_span := True\<rparr>
              else if capture_status ps \<and> status ps = [] then ps\<lparr>status := text\<rparr>
              else ps)"

fun handle :: "parser_state \<Rightarrow> html_event \<Rightarrow> parser_state" where
  "handle ps (StartTag tag attrs) = handle_starttag ps tag attrs"
| "handle ps (EndTag tag) = handle_endtag ps tag"
| "handle ps (Data data) = handle_data ps data"

text \<open>\<^verbatim>\<open>parser.feed(response.text)\<close>: the handlers run on the events in document order.\<close>

definition feed :: "parser_state \<Rightarrow> html_event list \<Rightarrow> parser_state" where
  "feed ps events = foldl handle ps events"

definition dashboard_url :: string where
  "dashboard_url = ''https://tradetron.tech/user/dashboard''"

text \<open>
  An exception of a statement that no \<^verbatim>\<open>try\<close> encloses leaves the function: the result
  is \<open>Inl\<close> of the error. \<^verbatim>\<open>fetch_status_from_html\<close> sends its request and feeds the
  parser outside any \<^verbatim>\<open>try\<close>.
\<close>

datatype error = TransportError | ParserError | PickleError | CookieError

definition fetch_status_from_html ::
  "transport \<Rightarrow> json \<Rightarrow> world \<Rightarrow> (error + string \<times> response) \<times> world" where
  "fetch_status_from_html net sid w =
     (let out = fst (http_request net GET dashboard_url None w);
          w1 = snd (http_request net GET dashboard_url None w)
      in case out of
           Raises \<Rightarrow> (Inl TransportError, w1)
         | Returns response \<Rightarrow>
             if status_code response \<noteq> 200 then (Inr ([], response), w1)
             else (case html_events response of
                     None \<Rightarrow> (Inl ParserError, w1)
                   | Some events \<Rightarrow>
                       (Inr (status (feed (new_parser sid) events), response), w1)))"

section \<open>The status resolver: \<^verbatim>\<open>fetch_current_status\<close>\<close>

text \<open>
  \<^verbatim>\<open>id_keys\<close> and \<^verbatim>\<open>status_keys\<close> are Python sets of strings: the order in which a \<^verbatim>\<open>for\<close>
  loop visits them is not fixed by the program (string hashing differs from run to
  run). The extraction therefore takes the two visiting orders as parameters
  \<open>iks\<close> and \<open>sks\<close>; the lists below give the members, in the order of the source text.
\<close>

definition id_keys :: "string list" where
  "id_keys = [''id'', ''deployment_id'', ''deployed_id'', ''strategy_id'', ''tradetron_id'',
     ''deployed_strategy_id'', ''deploy_id'', ''deploymentId'', ''deployedStrategyId'',
     ''strategy_deploy_id'']"

definition status_keys :: "string list" where
  "status_keys = [''status'', ''execution_status'', ''executionStatus'',
     ''execution_status_name'', ''state'', ''live_status'', ''current_status'',
     ''status_label'', ''statusText'', ''execution'']"

text \<open>The first key of \<open>ks\<close> that the dict \<open>node\<close> has, with its value.\<close>

fun first_present :: "string list \<Rightarrow> (string \<times> json) list \<Rightarrow> json option" where
  "first_present [] node = None"
| "first_present (k # ks) node =
     (case map_of node k of Some v \<Rightarrow> Some v | None \<Rightarrow> first_present ks node)"

text \<open>
  The value found under a status key: a dict is unwrapped through the first of
  \<^verbatim>\<open>("status", "label", "name", "text")\<close> it has, anything else (also a dict with none of
  them) is returned as \<^verbatim>\<open>str(value)\<close>.
\<close>

definition status_text :: "json \<Rightarrow> string" where
  "status_text v =
     (case v of
        JObj inner \<Rightarrow>
          (case first_present [''status'', ''label'', ''name'', ''text''] inner of
             Some x \<Rightarrow> py_str x
           | None \<Rightarrow> py_str v)
      | _ \<Rightarrow> py_str v)"

text \<open>
  \<^verbatim>\<open>key in node and str(node.get(key)) == str(strategy_id)\<close> for some key of \<open>iks\<close>.
\<close>

definition id_matches :: "string list \<Rightarrow> json \<Rightarrow> (string \<times> json) list \<Rightarrow> bool" where
  "id_matches iks sid node =
     list_ex (\<lambda>key. case map_of node key of
                       None \<Rightarrow> False
                     | Some v \<Rightarrow> py_str v = py_str sid) iks"

text \<open>
  The two nested \<^verbatim>\<open>for\<close> loops at the head of \<^verbatim>\<open>find_status\<close>: they return from the
  function (\<open>Some\<close>) as soon as an identifier key matches and the node has a status key;
  an identifier key that matches in a node without any status key returns nothing,
  whichever key it is.
\<close>

definition node_status ::
  "string list \<Rightarrow> string list \<Rightarrow> json \<Rightarrow> (string \<times> json) list \<Rightarrow> string option" where
  "node_status iks sks sid node =
     (if id_matches iks sid node then map_option status_text (first_present sks node)
      else None)"

fun find_status :: "string list \<Rightarrow> string list \<Rightarrow> json \<Rightarrow> json \<Rightarrow> string"
  and find_status_values ::
    "string list \<Rightarrow> string list \<Rightarrow> json \<Rightarrow> (string \<times> json) list \<Rightarrow> string"
  and find_status_items :: "string list \<Rightarrow> string list \<Rightarrow> json \<Rightarrow> json list \<Rightarrow> string" where
  "find_status iks sks sid (JObj node) =
     (case node_status iks sks sid node of
        Some s \<Rightarrow> s
      | None \<Rightarrow> find_status_values iks sks sid node)"
| "find_status iks sks sid (JArr items) = find_status_items iks sks sid items"
| "find_status iks sks sid JNull = []"
| "find_status iks sks sid (JBool b) = []"
| "find_status iks sks sid (JInt i) = []"
| "find_status iks sks sid (JStr s) = []"
| "find_status_values iks sks sid [] = []"
| "find_status_values iks sks sid (kv # rest) =
     (let result = find_status iks sks sid (snd kv)
      in if result \<noteq> [] then result else find_status_values iks sks sid rest)"
| "find_status_items iks sks sid [] = []"
| "find_status_items iks sks sid (item # rest) =
     (let result = find_status iks sks sid item
      in if result \<noteq> [] then result else find_status_items iks sks sid rest)"

text \<open>The three probes, in the order of the list \<^verbatim>\<open>probes\<close>.\<close>

record probe =
  probe_method :: http_method
  probe_url :: string
  probe_json :: "json option"

definition filter_query :: json where
  "filter_query = JObj [(''exchange'', JArr []), (''creator_id'', JArr []),
     (''execution'', JArr []), (''status'', JArr []), (''broker_id'', JArr []),
     (''statuses'', JArr [])]"

definition probes :: "json \<Rightarrow> probe list" where
  "probes sid =
     [\<lparr>probe_method = POST,
       probe_url = ''https://tradetron.tech/api/user/filter/dashboard'',
       probe_json = Some filter_query\<rparr>,
      \<lparr>probe_method = GET,
       probe_url = ''https://tradetron.tech/api/deployed/status?id='' @ py_str sid,
       probe_json = None\<rparr>,
      \<lparr>probe_method = GET,
       probe_url = ''https://tradetron.tech/api/deployed/details?id='' @ py_str sid,
       probe_json = None\<rparr>]"

text \<open>
  The loop \<^verbatim>\<open>for probe in probes\<close> with the variables \<^verbatim>\<open>data\<close> and \<^verbatim>\<open>response\<close> it
  assigns. A request that raises, a status other than 200 and a body that does not
  decode \<^verbatim>\<open>continue\<close>; the loop \<^verbatim>\<open>break\<close>s only when the decoded \<^verbatim>\<open>data\<close> is true.
\<close>

fun run_probes ::
  "transport \<Rightarrow> probe list \<Rightarrow> json option \<Rightarrow> response option \<Rightarrow> world
     \<Rightarrow> (json option \<times> response option) \<times> world" where
  "run_probes net [] data response w = ((data, response), w)"
| "run_probes net (p # ps) data response w =
     (let out = fst (http_request net (probe_method p) (probe_url p) (probe_json p) w);
          w1 = snd (http_request net (probe_method p) (probe_url p) (probe_json p) w)
      in case out of
           Raises \<Rightarrow> run_probes net ps data response w1
         | Returns r \<Rightarrow>
             if status_code r \<noteq> 200 then run_probes net ps data (Some r) w1
             else (case json_body r of
                     None \<Rightarrow> run_probes net ps data (Some r) w1
                   | Some d \<Rightarrow>
                       if truthy d then ((Some d, Some r), w1)
                       else run_probes net ps (Some d) (Some r) w1))"

text \<open>The branch \<^verbatim>\<open>if not data:\<close> of \<^verbatim>\<open>fetch_current_status\<close>.\<close>

definition html_fallback ::
  "transport \<Rightarrow> json \<Rightarrow> response option \<Rightarrow> world
     \<Rightarrow> (error + string \<times> response option) \<times> world" where
  "html_fallback net sid response w =
     (case fetch_status_from_html net sid w of
        (Inl e, w1) \<Rightarrow> (Inl e, w1)
      | (Inr (html_status, html_response), w1) \<Rightarrow>
          if html_status \<noteq> [] then (Inr (html_status, Some html_response), w1)
          else (Inr ([], response), w1))"

definition fetch_current_status ::
  "transport \<Rightarrow> string list \<Rightarrow> string list \<Rightarrow> json \<Rightarrow> world
     \<Rightarrow> (error + string \<times> response option) \<times> world" where
  "fetch_current_status net iks sks sid w =
     (case run_probes net (probes sid) None None w of
        ((data, response), w1) \<Rightarrow>
          (case data of
             None \<Rightarrow> html_fallback net sid response w1
           | Some d \<Rightarrow>
               if \<not> truthy d then html_fallback net sid response w1
               else (Inr (find_status iks sks sid d, response), w1)))"

section \<open>The running count: \<^verbatim>\<open>fetch_wallet_running_count\<close>\<close>

definition wallet_url :: string where
  "wallet_url = ''https://tradetron.tech/api/pricing/user-taxes''"

text \<open>
  The first \<^verbatim>\<open>try\<close> block, after the request: \<open>Some n\<close> when it returns \<open>n\<close>, \<open>None\<close>
  when it falls through or an exception is caught (\<^verbatim>\<open>.get\<close> on a value that is not a
  dict, \<^verbatim>\<open>int\<close> of a value that is not a number).
\<close>

definition get_or_empty :: "(string \<times> json) list \<Rightarrow> string \<Rightarrow> json" where
  "get_or_empty d k = (case map_of d k of None \<Rightarrow> JObj [] | Some v \<Rightarrow> v)"

definition api_running :: "outcome \<Rightarrow> int option" where
  "api_running out =
     (case out of
        Raises \<Rightarrow> None
      | Returns r \<Rightarrow>
          if status_code r = 200
          then (case json_body r of
                  Some (JObj data) \<Rightarrow>
                    (case get_or_empty data ''data'' of
                       JObj inner \<Rightarrow>
                         (case get_or_empty inner ''balances'' of
                            JObj balances \<Rightarrow>
                              (case map_of balances ''running'' of
                                 Some v \<Rightarrow> py_int v
                               | None \<Rightarrow> None)
                          | _ \<Rightarrow> None)
                     | _ \<Rightarrow> None)
                | _ \<Rightarrow> None)
          else None)"

definition fetch_wallet_running_count :: "transport \<Rightarrow> world \<Rightarrow> int option \<times> world" where
  "fetch_wallet_running_count net w =
     (let w0 = emit WalletLookup w;
          out = fst (http_request net GET wallet_url None w0);
          w1 = snd (http_request net GET wallet_url None w0)
      in case api_running out of
           Some n \<Rightarrow> (Some n, w1)
         | None \<Rightarrow>
             (let out2 = fst (http_request net GET dashboard_url None w1);
                  w2 = snd (http_request net GET dashboard_url None w1)
              in case out2 of
                   Raises \<Rightarrow> (None, w2)
                 | Returns r \<Rightarrow>
                     (if status_code r = 200 then running_match r else None, w2)))"

section \<open>The session store: \<^verbatim>\<open>load_session\<close>\<close>

text \<open>
  What \<^verbatim>\<open>load_session\<close> finds: whether the cookie file exists, the environment
  variable with the encoded blob, whether decoding the blob and writing the file
  succeed, and what \<^verbatim>\<open>pickle.load\<close> makes of the file: it raises (\<open>None\<close>), or it returns
  an object on which the loop installing the cookies raises (\<open>NotCookies\<close>: not
  iterable, or an item without \<^verbatim>\<open>name\<close> or \<^verbatim>\<open>value\<close>), or a list of cookie records. In a
  record \<^verbatim>\<open>cookie.get('domain')\<close> may be \<^verbatim>\<open>None\<close>; \<^verbatim>\<open>session.cookies.set\<close> then raises
  (\<^verbatim>\<open>AttributeError\<close>, from \<^verbatim>\<open>None.startswith\<close> in the library), outside any \<^verbatim>\<open>try\<close>.
\<close>

datatype cookie = Cookie (cookie_name: string) (cookie_value: string)
  (cookie_domain: "string option")

datatype pickled = NotCookies | Cookies "cookie list"

record cookie_source =
  file_exists :: bool
  env_blob :: "string option"
  blob_restores :: bool
  unpickled :: "pickled option"

type_synonym session = "cookie list"

definition validate_session ::
  "transport \<Rightarrow> cookie_source \<Rightarrow> world \<Rightarrow> (error + session option) \<times> world" where
  "validate_session net src w =
     (case unpickled src of
        None \<Rightarrow> (Inl PickleError, w)
      | Some NotCookies \<Rightarrow> (Inl CookieError, w)
      | Some (Cookies cookies) \<Rightarrow>
          if list_ex (\<lambda>cookie. cookie_domain cookie = None) cookies
          then (Inl CookieError, w)
          else
            (let out = fst (http_request net GET wallet_url None w);
                 w1 = snd (http_request net GET wallet_url None w)
             in case out of
                  Raises \<Rightarrow> (Inr None, emit (Notify ValidationException) w1)
                | Returns test \<Rightarrow>
                    if status_code test \<noteq> 200
                    then (Inr None, emit (Notify (ValidationStatus (status_code test))) w1)
                    else (Inr (Some cookies), w1)))"

definition load_session ::
  "transport \<Rightarrow> cookie_source \<Rightarrow> world \<Rightarrow> (error + session option) \<times> world" where
  "load_session net src w =
     (if \<not> file_exists src
      then (case env_blob src of
              None \<Rightarrow> (Inr None, w)
            | Some encoded \<Rightarrow>
                if encoded = [] then (Inr None, w)
                else if blob_restores src then validate_session net src w
                else (Inr None, emit (Notify DecodeFailed) w))
      else validate_session net src w)"

section \<open>The orchestrator: \<^verbatim>\<open>main\<close>\<close>

text \<open>The variables \<^verbatim>\<open>had_failure\<close> and \<^verbatim>\<open>error_details\<close> of \<^verbatim>\<open>main\<close>.\<close>

record run_state =
  had_failure :: bool
  error_details :: "detail list"

text \<open>
  \<^verbatim>\<open>response.status_code if response else "no response"\<close>: the test is the truth value
  of the response, so a response with a status from 400 to 599 is shown as
  \<^verbatim>\<open>no response\<close> too.
\<close>

definition shown_status :: "response option \<Rightarrow> int option" where
  "shown_status response =
     (case response of
        None \<Rightarrow> None
      | Some r \<Rightarrow> if response_ok r then Some (status_code r) else None)"

text \<open>\<^verbatim>\<open>response and response.status_code == 200\<close>.\<close>

definition accepted :: "response option \<Rightarrow> bool" where
  "accepted response =
     (case response of None \<Rightarrow> False | Some r \<Rightarrow> response_ok r \<and> status_code r = 200)"

text \<open>The lines the failure branch appends: the message, then the first 200 characters
  of the body when there is a response.\<close>

definition failure_lines :: "detail \<Rightarrow> response option \<Rightarrow> detail list" where
  "failure_lines msg response =
     (case response of
        None \<Rightarrow> [msg]
      | Some r \<Rightarrow> [msg, ResponseDetail (take 200 (body_text r))])"

text \<open>
  One command of a cycle: the \<^verbatim>\<open>try\<close> block that sends \<^verbatim>\<open>STOP\<close> (status \<^verbatim>\<open>Paused\<close>) and
  the one that sends \<^verbatim>\<open>START\<close> (status \<^verbatim>\<open>Start\<close>) are the same text up to these two
  words. The result says whether the loop goes on (\<open>True\<close>) or \<^verbatim>\<open>break\<close>s. The handler
  \<^verbatim>\<open>except Exception\<close> around the block is never entered: \<^verbatim>\<open>toggle_strategy\<close> catches
  the exceptions of its request, and the block catches those of \<^verbatim>\<open>response.json()\<close>.
\<close>

definition command_step ::
  "transport \<Rightarrow> json \<Rightarrow> string \<Rightarrow> string \<Rightarrow> int \<Rightarrow> int \<Rightarrow> run_state \<Rightarrow> world
     \<Rightarrow> bool \<times> run_state \<times> world" where
  "command_step net sid state label i n rs w =
     (let response = fst (toggle_strategy net sid state 3 3 w);
          w1 = snd (toggle_strategy net sid state 3 3 w)
      in if accepted response
         then (case Option.bind response json_body of
                 Some printed \<Rightarrow> (True, rs, w1)
               | None \<Rightarrow>
                   (True,
                    rs\<lparr>error_details := error_details rs @ [JsonParseDetail label]\<rparr>,
                    emit (Notify (JsonParseError label)) w1))
         else (False,
               rs\<lparr>error_details := error_details rs
                      @ failure_lines (FailedDetail label (i + 1) n (shown_status response))
                          response,
                  had_failure := True\<rparr>,
               emit (Notify (CommandFailed label (i + 1) n (shown_status response))) w1))"

text \<open>
  The loop \<^verbatim>\<open>for i in range(NUM_TOGGLES)\<close>, entered at \<open>i\<close>. \<^verbatim>\<open>DELAY_SECONDS\<close> is \<open>delay\<close>.
\<close>

function cycles ::
  "transport \<Rightarrow> json \<Rightarrow> int \<Rightarrow> nat \<Rightarrow> int \<Rightarrow> run_state \<Rightarrow> world \<Rightarrow> run_state \<times> world" where
  "cycles net sid n delay i rs w =
     (if n \<le> i then (rs, w)
      else case command_step net sid ''Paused'' ''STOP'' i n rs w of
             (go_on, rs1, w1) \<Rightarrow>
               if \<not> go_on then (rs1, w1)
               else case command_step net sid ''Start'' ''START'' i n rs1
                           (emit (Sleep (int delay)) w1) of
                      (go_on2, rs2, w2) \<Rightarrow>
                        if \<not> go_on2 then (rs2, w2)
                        else cycles net sid n delay (i + 1) rs2
                               (if i < n - 1 then emit (Sleep (int delay)) w2 else w2))"
  by pat_completeness auto
termination
  by (relation "measure (\<lambda>(net, sid, n, delay, i, rs, w). nat (n - i))") auto

text \<open>The closing command after the loop; a body that does not decode is passed over.\<close>

definition final_stop :: "transport \<Rightarrow> json \<Rightarrow> run_state \<Rightarrow> world \<Rightarrow> run_state \<times> world" where
  "final_stop net sid rs w =
     (let response = fst (toggle_strategy net sid ''Paused'' 3 3 w);
          w1 = snd (toggle_strategy net sid ''Paused'' 3 3 w)
      in if accepted response then (rs, w1)
         else (rs\<lparr>error_details := error_details rs
                     @ failure_lines (FinalStopDetail (shown_status response)) response,
                 had_failure := True\<rparr>, w1))"

text \<open>
  \<^verbatim>\<open>main\<close> from the toggling on, once the session is loaded. The result is the exit code
  of the process: 1 through \<^verbatim>\<open>sys.exit(1)\<close>, 0 when \<^verbatim>\<open>main\<close> returns.
\<close>

definition toggle_run :: "transport \<Rightarrow> json \<Rightarrow> int \<Rightarrow> nat \<Rightarrow> world \<Rightarrow> int \<times> world" where
  "toggle_run net sid n delay w =
     (case cycles net sid n delay 0 \<lparr>had_failure = False, error_details = []\<rparr> w of
        (rs, w1) \<Rightarrow>
          (case final_stop net sid rs w1 of
             (rs2, w2) \<Rightarrow>
               if had_failure rs2
               then (1, emit (Notify (RunFailed (error_details rs2))) w2)
               else (case fetch_wallet_running_count net w2 of
                       (running_count, w3) \<Rightarrow>
                         (0, emit (Notify (RunSucceeded n running_count)) w3))))"

text \<open>
  \<^verbatim>\<open>main\<close> from \<^verbatim>\<open>load_session()\<close> on, with \<^verbatim>\<open>STRATEGY_ID\<close>, \<^verbatim>\<open>NUM_TOGGLES\<close> and
  \<^verbatim>\<open>DELAY_SECONDS\<close> as read from the configuration, under the handler of the entry
  point: an exception that leaves \<^verbatim>\<open>main\<close> is reported and the process exits with 1.
\<close>

definition main :: "transport \<Rightarrow> cookie_source \<Rightarrow> json \<Rightarrow> int \<Rightarrow> nat \<Rightarrow> world \<Rightarrow> int \<times> world" where
  "main net src sid n delay w =
     (case load_session net src w of
        (Inl e, w1) \<Rightarrow> (1, emit (Notify CriticalError) w1)
      | (Inr None, w1) \<Rightarrow> (1, w1)
      | (Inr (Some session), w1) \<Rightarrow> toggle_run net sid n delay w1)"

section \<open>Observations on a trace\<close>

text \<open>The commands issued: the status of each call of \<^verbatim>\<open>toggle_strategy\<close>, in order.\<close>

fun commands :: "event list \<Rightarrow> string list" where
  "commands [] = []"
| "commands (Toggle state # es) = state # commands es"
| "commands (e # es) = commands es"

text \<open>The number of calls of \<^verbatim>\<open>fetch_wallet_running_count\<close>.\<close>

definition wallet_lookups :: "event list \<Rightarrow> nat" where
  "wallet_lookups es = length (filter (\<lambda>e. e = WalletLookup) es)"

text \<open>An outcome after which \<^verbatim>\<open>toggle_strategy\<close> goes on to another attempt.\<close>

definition retryable :: "outcome \<Rightarrow> bool" where
  "retryable out = (case out of Raises \<Rightarrow> True | Returns r \<Rightarrow> 500 \<le> status_code r)"

text \<open>
  The trace of \<open>k\<close> attempts that are each followed by a backoff sleep, the first of them
  being attempt number \<open>a\<close>: a POST of the payload, then a sleep of
  \<^verbatim>\<open>backoff_seconds * attempt\<close>.
\<close>

fun backoff_trace :: "json \<Rightarrow> nat \<Rightarrow> int \<Rightarrow> nat \<Rightarrow> event list" where
  "backoff_trace p b a 0 = []"
| "backoff_trace p b a (Suc k) =
     Request POST toggle_url (Some p) # Sleep (int b * a) # backoff_trace p b (a + 1) k"

text \<open>
  The step log of a trace: each command issued, and after a command the mark \<open>Failed\<close>
  when the orchestrator classified it as a failed step (it then sends the notice
  \<^verbatim>\<open>... command failed at iteration ...\<close>).
\<close>

datatype mark = Issued string | Failed

fun mark_of :: "event \<Rightarrow> mark list" where
  "mark_of (Toggle state) = [Issued state]"
| "mark_of (Notify (CommandFailed label i n shown)) = [Failed]"
| "mark_of e = []"

definition step_log :: "event list \<Rightarrow> mark list" where
  "step_log es = concat (map mark_of es)"

text \<open>Requests and sleeps: the events that are neither a marker nor a notice.\<close>

fun is_io :: "event \<Rightarrow> bool" where
  "is_io (Request m url body) = True"
| "is_io (Sleep s) = True"
| "is_io e = False"

text \<open>The commands of \<open>n\<close> complete cycles: \<^verbatim>\<open>Paused\<close> then \<^verbatim>\<open>Start\<close>, \<open>n\<close> times.\<close>

definition cycle_commands :: "int \<Rightarrow> string list" where
  "cycle_commands n = concat (replicate (nat n) [''Paused'', ''Start''])"

section \<open>Scripted transports for concrete runs\<close>

text \<open>A response with a status code and nothing else, a transport that answers the
  requests of a run from a list and then with a fixed outcome, and the initial world.\<close>

definition plain_response :: "int \<Rightarrow> response" where
  "plain_response code =
     \<lparr>status_code = code, body_text = [], json_body = None, html_events = Some [],
      running_match = None\<rparr>"

definition script :: "outcome list \<Rightarrow> outcome \<Rightarrow> transport" where
  "script outs rest n = (if n < length outs then outs ! n else rest)"

definition fresh :: world where
  "fresh = \<lparr>sent = 0, trace = []\<rparr>"

text \<open>
  A cookie blob is at hand: the cookie file exists, or the environment variable holds a
  non-empty blob that decodes and is written to the file.
\<close>

definition blob_available :: "cookie_source \<Rightarrow> bool" where
  "blob_available src =
     (file_exists src \<or>
      (case env_blob src of None \<Rightarrow> False | Some encoded \<Rightarrow> encoded \<noteq> [] \<and> blob_restores src))"

text \<open>A cookie file that holds one cookie record.\<close>

definition saved_cookies :: cookie_source where
  "saved_cookies =
     \<lparr>file_exists = True, env_blob = None, blob_restores = False,
      unpickled = Some (Cookies [Cookie ''XSRF-TOKEN'' ''t0ken'' (Some ''tradetron.tech'')])\<rparr>"

text \<open>
  A probe outcome after which the loop of \<^verbatim>\<open>fetch_current_status\<close> goes on to the next
  probe: the request raised, the status is not 200, the body does not decode, or the
  decoded value is false. The request of a probe as an event; data that leaves
  \<^verbatim>\<open>if not data:\<close> true.
\<close>

definition probe_fails :: "outcome \<Rightarrow> bool" where
  "probe_fails out =
     (case out of
        Raises \<Rightarrow> True
      | Returns r \<Rightarrow>
          status_code r \<noteq> 200 \<or>
          (case json_body r of None \<Rightarrow> True | Some d \<Rightarrow> \<not> truthy d))"

definition probe_request :: "probe \<Rightarrow> event" where
  "probe_request p = Request (probe_method p) (probe_url p) (probe_json p)"

definition unusable :: "json option \<Rightarrow> bool" where
  "unusable data = (case data of None \<Rightarrow> True | Some d \<Rightarrow> \<not> truthy d)"

text \<open>Responses with status 200 that carry JSON, or markup; the payload of the spec's
  example.\<close>

definition json_response :: "json \<Rightarrow> response" where
  "json_response d =
     \<lparr>status_code = 200, body_text = [], json_body = Some d, html_events = Some [],
      running_match = None\<rparr>"

definition html_response :: "html_event list \<Rightarrow> response" where
  "html_response events =
     \<lparr>status_code = 200, body_text = [], json_body = None, html_events = Some events,
      running_match = None\<rparr>"

definition example_payload :: json where
  "example_payload =
     JObj [(''data'', JObj [(''list'',
       JArr [JObj [(''id'', JStr ''42''), (''status'', JStr ''Running'')]])])]"

text \<open>The same payload with the identifier as a JSON number.\<close>

definition example_numeric :: json where
  "example_numeric =
     JObj [(''data'', JObj [(''list'',
       JArr [JObj [(''id'', JInt 42), (''status'', JStr ''Running'')]])])]"










text \<open>A transport that answers the first request with status 200 and a body that is not
  JSON, and every later request with status 404.\<close>

definition undecodable_then_refused :: transport where
  "undecodable_then_refused = script [Returns (plain_response 200)] (Returns (plain_response 404))"


text \<open>
  The running-count lookup whose first request is number \<open>k\<close> yields nothing: the API
  request gives no count, and the request of the dashboard raises, or returns a status
  other than 200, or a text in which no pattern matches.
\<close>

definition lookup_fails :: "transport \<Rightarrow> nat \<Rightarrow> bool" where
  "lookup_fails net k =
     (api_running (net k) = None \<and>
      (case net (Suc k) of
         Raises \<Rightarrow> True
       | Returns r \<Rightarrow> status_code r \<noteq> 200 \<or> running_match r = None))"

text \<open>
  All dicts of a document, in the order of a depth-first walk; a dict whose value under
  one of the identifier keys has the same \<^verbatim>\<open>str\<close> as \<^verbatim>\<open>strategy_id\<close>; a string that is the
  status text of a dict (the text found under one of its status keys). These follow the
  words of the spec and do not depend on the order in which the key sets are visited.
\<close>

fun dict_nodes :: "json \<Rightarrow> (string \<times> json) list list"
  and dict_nodes_values :: "(string \<times> json) list \<Rightarrow> (string \<times> json) list list"
  and dict_nodes_items :: "json list \<Rightarrow> (string \<times> json) list list" where
  "dict_nodes (JObj node) = node # dict_nodes_values node"
| "dict_nodes (JArr items) = dict_nodes_items items"
| "dict_nodes JNull = []"
| "dict_nodes (JBool b) = []"
| "dict_nodes (JInt i) = []"
| "dict_nodes (JStr s) = []"
| "dict_nodes_values [] = []"
| "dict_nodes_values (kv # rest) = dict_nodes (snd kv) @ dict_nodes_values rest"
| "dict_nodes_items [] = []"
| "dict_nodes_items (item # rest) = dict_nodes item @ dict_nodes_items rest"

definition id_equals :: "json \<Rightarrow> (string \<times> json) list \<Rightarrow> bool" where
  "id_equals sid node =
     (\<exists>key\<in>set id_keys. \<exists>v. map_of node key = Some v \<and> py_str v = py_str sid)"

definition status_of :: "(string \<times> json) list \<Rightarrow> string \<Rightarrow> bool" where
  "status_of node s =
     (\<exists>key\<in>set status_keys. \<exists>v. map_of node key = Some v \<and> status_text v = s)"

text \<open>
  A document with two entities: 43, stopped, and 42, running, the second with other
  recognised keys, a string identifier and a status wrapped in a dict.
\<close>

definition two_entities :: json where
  "two_entities =
     JObj [(''data'',
       JArr [JObj [(''id'', JInt 43), (''status'', JStr ''Stopped'')],
             JObj [(''deployment_id'', JStr ''42''),
                   (''execution_status'', JObj [(''label'', JStr ''Running'')])]])]"

section \<open>The retry policy of \<^verbatim>\<open>toggle_strategy\<close>\<close>

declare toggle_attempts.simps [simp del]

lemma emit_after_request:
  "emit e (snd (http_request net m url body w)) =
     \<lparr>sent = Suc (sent w), trace = trace w @ [Request m url body, e]\<rparr>"
  by (simp add: emit_def http_request_def)

lemma request_world:
  "snd (http_request net m url body w) =
     \<lparr>sent = Suc (sent w), trace = trace w @ [Request m url body]\<rparr>"
  by (simp add: http_request_def)

lemma request_outcome: "fst (http_request net m url body w) = net (sent w)"
  by (simp add: http_request_def)

lemma toggle_attempts_terminal:
  "\<forall>i<k. retryable (net (sent w + i)) \<Longrightarrow> a + int k \<le> retries \<Longrightarrow>
   net (sent w + k) = Returns r \<Longrightarrow> status_code r < 500 \<Longrightarrow>
   toggle_attempts net p retries b a lr w =
     (Some r, \<lparr>sent = sent w + k + 1,
               trace = trace w @ backoff_trace p b a k @ [Request POST toggle_url (Some p)]\<rparr>)"
proof (induction k arbitrary: a lr w)
  case 0
  then show ?case
    by (subst toggle_attempts.simps) (simp add: request_world request_outcome)
next
  case (Suc k)
  from Suc.prems(1) have r0: "retryable (net (sent w))" by force
  have lt: "a < retries" "\<not> retries < a" using Suc.prems(2) by auto
  define w' :: world where
    "w' = \<lparr>sent = Suc (sent w),
           trace = trace w @ [Request POST toggle_url (Some p), Sleep (int b * a)]\<rparr>"
  have sw': "sent w' = Suc (sent w)"
    "trace w' = trace w @ [Request POST toggle_url (Some p), Sleep (int b * a)]"
    by (simp_all add: w'_def)
  have all: "\<forall>i<k. retryable (net (sent w' + i))"
    using Suc.prems(1) sw' by (metis Suc_less_eq add_Suc_shift)
  have IH: "toggle_attempts net p retries b (a + 1) l w' =
     (Some r, \<lparr>sent = sent w' + k + 1,
               trace = trace w' @ backoff_trace p b (a + 1) k
                 @ [Request POST toggle_url (Some p)]\<rparr>)" for l
    by (rule Suc.IH [OF all]) (use Suc.prems sw' in auto)
  show ?case
  proof (cases "net (sent w)")
    case Raises
    then show ?thesis
      by (subst toggle_attempts.simps)
         (simp add: lt request_outcome emit_after_request IH sw' flip: w'_def)
  next
    case (Returns r')
    with r0 have "\<not> status_code r' < 500" by (simp add: retryable_def)
    with Returns show ?thesis
      by (subst toggle_attempts.simps)
         (simp add: lt request_outcome emit_after_request IH sw' flip: w'_def)
  qed
qed

lemma toggle_attempts_past_end:
  "retries < a \<Longrightarrow> toggle_attempts net p retries b a lr w = (lr, w)"
  by (subst toggle_attempts.simps) simp

lemma toggle_attempts_exhausted:
  "\<forall>i\<le>j. retryable (net (sent w + i)) \<Longrightarrow> a + int j = retries \<Longrightarrow>
   toggle_attempts net p retries b a lr w =
     (case net (sent w + j) of Raises \<Rightarrow> None | Returns r \<Rightarrow> Some r,
      \<lparr>sent = sent w + j + 1,
       trace = trace w @ backoff_trace p b a j @ [Request POST toggle_url (Some p)]\<rparr>)"
proof (induction j arbitrary: a lr w)
  case 0
  then have a: "a = retries" and r0: "retryable (net (sent w))" by auto
  show ?case
  proof (cases "net (sent w)")
    case Raises
    then show ?thesis
      by (subst toggle_attempts.simps) (simp add: a request_world request_outcome)
  next
    case (Returns r')
    with r0 have "\<not> status_code r' < 500" by (simp add: retryable_def)
    with Returns show ?thesis
      by (subst toggle_attempts.simps)
         (simp add: a request_world request_outcome toggle_attempts_past_end)
  qed
next
  case (Suc j)
  from Suc.prems(1) have r0: "retryable (net (sent w))" by force
  have lt: "a < retries" "\<not> retries < a" using Suc.prems(2) by auto
  define w' :: world where
    "w' = \<lparr>sent = Suc (sent w),
           trace = trace w @ [Request POST toggle_url (Some p), Sleep (int b * a)]\<rparr>"
  have sw': "sent w' = Suc (sent w)"
    "trace w' = trace w @ [Request POST toggle_url (Some p), Sleep (int b * a)]"
    by (simp_all add: w'_def)
  have all: "\<forall>i\<le>j. retryable (net (sent w' + i))"
    using Suc.prems(1) sw' by (metis Suc_le_mono add_Suc_shift)
  have IH: "toggle_attempts net p retries b (a + 1) l w' =
     (case net (sent w' + j) of Raises \<Rightarrow> None | Returns r \<Rightarrow> Some r,
      \<lparr>sent = sent w' + j + 1,
       trace = trace w' @ backoff_trace p b (a + 1) j
                 @ [Request POST toggle_url (Some p)]\<rparr>)" for l
    by (rule Suc.IH [OF all]) (use Suc.prems sw' in auto)
  show ?case
  proof (cases "net (sent w)")
    case Raises
    then show ?thesis
      by (subst toggle_attempts.simps)
         (simp add: lt request_outcome emit_after_request IH sw' flip: w'_def)
  next
    case (Returns r')
    with r0 have "\<not> status_code r' < 500" by (simp add: retryable_def)
    with Returns show ?thesis
      by (subst toggle_attempts.simps)
         (simp add: lt request_outcome emit_after_request IH sw' flip: w'_def)
  qed
qed


lemma sent_emit: "sent (emit e w) = sent w"
  by (simp add: emit_def)

lemma sent_request: "sent (snd (http_request net m url body w)) = Suc (sent w)"
  by (simp add: http_request_def)

lemma toggle_attempts_budget:
  "sent (snd (toggle_attempts net p retries b a lr w)) \<le> sent w + nat (retries + 1 - a)"
proof (induction net p retries b a lr w rule: toggle_attempts.induct)
  case (1 net payload retries backoff_seconds attempt last_response w)
  show ?case
  proof (cases "retries < attempt")
    case True
    then show ?thesis by (simp add: toggle_attempts_past_end)
  next
    case False
    note IH = "1.IH" [OF False refl refl]
    have step: "Suc (sent w) + nat (retries + 1 - (attempt + 1))
                  \<le> sent w + nat (retries + 1 - attempt)"
      using False by simp
    show ?thesis
    proof (cases "net (sent w)")
      case Raises
      then have out: "fst (http_request net POST toggle_url (Some payload) w) = Raises"
        by (simp add: request_outcome)
      show ?thesis
      proof (cases "attempt < retries")
        case True
        from IH(1) [OF out True] step show ?thesis
          by (subst toggle_attempts.simps)
             (simp add: out True False sent_emit sent_request del: add_Suc)
      next
        case F: False
        with False show ?thesis
          by (subst toggle_attempts.simps) (simp add: out sent_request)
      qed
    next
      case (Returns r)
      then have out: "fst (http_request net POST toggle_url (Some payload) w) = Returns r"
        by (simp add: request_outcome)
      show ?thesis
      proof (cases "status_code r < 500")
        case True
        with False show ?thesis
          by (subst toggle_attempts.simps) (simp add: out sent_request)
      next
        case F: False
        from IH(2) [OF out F] step show ?thesis
          by (subst toggle_attempts.simps)
             (simp add: out F False sent_emit sent_request del: add_Suc split: if_splits)
      qed
    qed
  qed
qed

text \<open>
  C1. Take a call of \<^verbatim>\<open>toggle_strategy\<close> whose first \<open>k\<close> attempts each end in a transport
  exception or a status of 500 or more. If attempt \<open>k + 1\<close> is within the budget and
  receives a status below 500, that response is returned at once: the trace of the call
  is \<open>k\<close> POSTs, each followed by a sleep of \<^verbatim>\<open>backoff_seconds * attempt\<close>, then one last
  POST with no sleep after it. If the \<open>k\<close> attempts are the whole budget, the trace is the
  same with \<open>k\<close> POSTs and \<open>k - 1\<close> sleeps between them, and the result is no response
  when the last attempt raised (in particular when all did). In every case the call
  sends at most \<^verbatim>\<open>retries\<close> requests.
\<close>

theorem toggle_strategy_retry_policy:
  assumes "\<forall>i<k. retryable (net (sent w + i))"
  shows "(int k < retries \<and> net (sent w + k) = Returns r \<and> status_code r < 500 \<longrightarrow>
            toggle_strategy net sid state retries b w =
              (Some r,
               \<lparr>sent = sent w + k + 1,
                trace = trace w @ Toggle state # backoff_trace (toggle_payload sid state) b 1 k
                  @ [Request POST toggle_url (Some (toggle_payload sid state))]\<rparr>))
       \<and> (0 < k \<and> int k = retries \<longrightarrow>
            snd (toggle_strategy net sid state retries b w) =
              \<lparr>sent = sent w + k,
               trace = trace w @ Toggle state
                 # backoff_trace (toggle_payload sid state) b 1 (k - 1)
                 @ [Request POST toggle_url (Some (toggle_payload sid state))]\<rparr>
            \<and> (net (sent w + (k - 1)) = Raises \<longrightarrow>
                 fst (toggle_strategy net sid state retries b w) = None))
       \<and> sent (snd (toggle_strategy net sid state retries b w)) \<le> sent w + nat retries"
proof (intro conjI impI)
  assume h: "int k < retries \<and> net (sent w + k) = Returns r \<and> status_code r < 500"
  have "\<forall>i<k. retryable (net (sent (emit (Toggle state) w) + i))"
    using assms by (simp add: emit_def)
  from toggle_attempts_terminal [OF this, of 1 retries r]
  show "toggle_strategy net sid state retries b w =
      (Some r,
       \<lparr>sent = sent w + k + 1,
        trace = trace w @ Toggle state # backoff_trace (toggle_payload sid state) b 1 k
          @ [Request POST toggle_url (Some (toggle_payload sid state))]\<rparr>)"
    using h by (simp add: toggle_strategy_def emit_def)
next
  assume h: "0 < k \<and> int k = retries"
  then obtain j where k: "k = Suc j" by (cases k) auto
  have all: "\<forall>i\<le>j. retryable (net (sent (emit (Toggle state) w) + i))"
    using assms k by (simp add: emit_def)
  have a: "1 + int j = retries" using h k by simp
  note ex = toggle_attempts_exhausted [OF all a, of "toggle_payload sid state" b None]
  show "snd (toggle_strategy net sid state retries b w) =
      \<lparr>sent = sent w + k,
       trace = trace w @ Toggle state
         # backoff_trace (toggle_payload sid state) b 1 (k - 1)
         @ [Request POST toggle_url (Some (toggle_payload sid state))]\<rparr>"
    using ex k by (simp add: toggle_strategy_def emit_def)
  show "fst (toggle_strategy net sid state retries b w) = None"
    if "net (sent w + (k - 1)) = Raises"
    using ex k that by (simp add: toggle_strategy_def emit_def)
next
  show "sent (snd (toggle_strategy net sid state retries b w)) \<le> sent w + nat retries"
    using toggle_attempts_budget [of net "toggle_payload sid state" retries b 1 None
        "emit (Toggle state) w"]
    by (simp add: toggle_strategy_def emit_def)
qed


lemma script_nth [simp]:
  "script (x # xs) rest 0 = x"
  "script (x # xs) rest (Suc n) = script xs rest n"
  "script [] rest n = rest"
  by (simp_all add: script_def)

theorem toggle_strategy_retry_policy_witness:
  "toggle_strategy
     (script [Returns (plain_response 503), Raises, Returns (plain_response 404)] Raises)
     (JInt 7) ''Start'' 3 3 fresh =
     (Some (plain_response 404),
      \<lparr>sent = 3,
       trace = [Toggle ''Start'',
                Request POST toggle_url (Some (toggle_payload (JInt 7) ''Start'')), Sleep 3,
                Request POST toggle_url (Some (toggle_payload (JInt 7) ''Start'')), Sleep 6,
                Request POST toggle_url (Some (toggle_payload (JInt 7) ''Start''))]\<rparr>)
   \<and> toggle_strategy (script [] Raises) (JInt 7) ''Start'' 3 3 fresh =
     (None,
      \<lparr>sent = 3,
       trace = [Toggle ''Start'',
                Request POST toggle_url (Some (toggle_payload (JInt 7) ''Start'')), Sleep 3,
                Request POST toggle_url (Some (toggle_payload (JInt 7) ''Start'')), Sleep 6,
                Request POST toggle_url (Some (toggle_payload (JInt 7) ''Start''))]\<rparr>)"
proof
  let ?net = "script [Returns (plain_response 503), Raises, Returns (plain_response 404)] Raises"
  have h: "\<forall>i<Suc (Suc 0). retryable (?net (sent fresh + i))"
    by (simp add: fresh_def retryable_def plain_response_def All_less_Suc)
  have c: "int (Suc (Suc 0)) < 3 \<and> ?net (sent fresh + Suc (Suc 0)) = Returns (plain_response 404)
            \<and> status_code (plain_response 404) < 500"
    by (simp add: fresh_def plain_response_def)
  from toggle_strategy_retry_policy [OF h, THEN conjunct1, rule_format, OF c,
      of "JInt 7" "''Start''" 3]
  show "toggle_strategy ?net (JInt 7) ''Start'' 3 3 fresh =
     (Some (plain_response 404),
      \<lparr>sent = 3,
       trace = [Toggle ''Start'',
                Request POST toggle_url (Some (toggle_payload (JInt 7) ''Start'')), Sleep 3,
                Request POST toggle_url (Some (toggle_payload (JInt 7) ''Start'')), Sleep 6,
                Request POST toggle_url (Some (toggle_payload (JInt 7) ''Start''))]\<rparr>)"
    by (simp add: fresh_def)
next
  let ?net = "script [] Raises"
  have h: "\<forall>i<Suc (Suc (Suc 0)). retryable (?net (sent fresh + i))"
    by (simp add: retryable_def)
  have c: "0 < Suc (Suc (Suc 0)) \<and> int (Suc (Suc (Suc 0))) = 3" by simp
  from toggle_strategy_retry_policy [OF h, THEN conjunct2, THEN conjunct1, rule_format, OF c,
      of "JInt 7" "''Start''" 3]
  show "toggle_strategy ?net (JInt 7) ''Start'' 3 3 fresh =
     (None,
      \<lparr>sent = 3,
       trace = [Toggle ''Start'',
                Request POST toggle_url (Some (toggle_payload (JInt 7) ''Start'')), Sleep 3,
                Request POST toggle_url (Some (toggle_payload (JInt 7) ''Start'')), Sleep 6,
                Request POST toggle_url (Some (toggle_payload (JInt 7) ''Start''))]\<rparr>)"
    by (simp add: fresh_def prod_eq_iff)
qed

text \<open>
  C10. When the \<^verbatim>\<open>retries\<close> attempts of a call are all used (each ends in a transport
  exception or a status of 500 or more), the call returns the response of the last
  attempt when that attempt received one (so the last 5xx response when all attempts
  received one), and no response when the last attempt raised, whatever 5xx response
  an earlier attempt received.
\<close>

theorem toggle_strategy_exhausted_result:
  assumes "0 < k" and "int k = retries" and "\<forall>i<k. retryable (net (sent w + i))"
  shows "(\<forall>r. net (sent w + (k - 1)) = Returns r \<longrightarrow>
            fst (toggle_strategy net sid state retries b w) = Some r)
       \<and> (net (sent w + (k - 1)) = Raises \<longrightarrow>
            fst (toggle_strategy net sid state retries b w) = None)"
proof -
  from assms(1) obtain j where k: "k = Suc j" by (cases k) auto
  have all: "\<forall>i\<le>j. retryable (net (sent (emit (Toggle state) w) + i))"
    using assms(3) k by (simp add: emit_def)
  have a: "1 + int j = retries" using assms(2) k by simp
  from toggle_attempts_exhausted [OF all a, of "toggle_payload sid state" b None]
  show ?thesis
    using k by (simp add: toggle_strategy_def emit_def)
qed

theorem toggle_strategy_exhausted_result_witness:
  "fst (toggle_strategy
          (script [Returns (plain_response 503), Returns (plain_response 500),
                   Returns (plain_response 502)] Raises)
          (JInt 7) ''Paused'' 3 3 fresh) = Some (plain_response 502)
   \<and> fst (toggle_strategy
          (script [Returns (plain_response 503), Returns (plain_response 500)] Raises)
          (JInt 7) ''Paused'' 3 3 fresh) = None"
proof
  let ?net = "script [Returns (plain_response 503), Returns (plain_response 500),
                   Returns (plain_response 502)] Raises"
  have h: "\<forall>i<Suc (Suc (Suc 0)). retryable (?net (sent fresh + i))"
    by (simp add: fresh_def retryable_def plain_response_def All_less_Suc)
  from toggle_strategy_exhausted_result [OF _ _ h, of 3 "JInt 7" "''Paused''" 3]
  show "fst (toggle_strategy ?net (JInt 7) ''Paused'' 3 3 fresh) = Some (plain_response 502)"
    by (simp add: fresh_def)
next
  let ?net = "script [Returns (plain_response 503), Returns (plain_response 500)] Raises"
  have h: "\<forall>i<Suc (Suc (Suc 0)). retryable (?net (sent fresh + i))"
    by (simp add: fresh_def retryable_def plain_response_def All_less_Suc)
  from toggle_strategy_exhausted_result [OF _ _ h, of 3 "JInt 7" "''Paused''" 3]
  show "fst (toggle_strategy ?net (JInt 7) ''Paused'' 3 3 fresh) = None"
    by (simp add: fresh_def)
qed

section \<open>The orchestrator: commands issued, fail-fast, closing command\<close>

lemma toggle_attempts_io:
  "\<exists>es. trace (snd (toggle_attempts net p retries b a lr w)) = trace w @ es \<and> list_all is_io es"
proof (induction net p retries b a lr w rule: toggle_attempts.induct)
  case (1 net payload retries backoff_seconds attempt last_response w)
  show ?case
  proof (cases "retries < attempt")
    case True
    then show ?thesis by (simp add: toggle_attempts_past_end)
  next
    case False
    note IH = "1.IH" [OF False refl refl]
    let ?w1 = "snd (http_request net POST toggle_url (Some payload) w)"
    have w1: "trace ?w1 = trace w @ [Request POST toggle_url (Some payload)]"
      by (simp add: http_request_def)
    show ?thesis
    proof (cases "fst (http_request net POST toggle_url (Some payload) w)")
      case Raises
      show ?thesis
      proof (cases "attempt < retries")
        case True
        from IH(1) [OF Raises True] obtain es where
          "trace (snd (toggle_attempts net payload retries backoff_seconds (attempt + 1)
             last_response (emit (Sleep (int backoff_seconds * attempt)) ?w1)))
           = trace (emit (Sleep (int backoff_seconds * attempt)) ?w1) @ es" "list_all is_io es"
          by blast
        then show ?thesis
          by (subst toggle_attempts.simps) (simp add: Raises True False w1 emit_def)
      next
        case F: False
        then show ?thesis
          by (subst toggle_attempts.simps) (simp add: Raises False w1)
      qed
    next
      case (Returns r)
      show ?thesis
      proof (cases "status_code r < 500")
        case True
        then show ?thesis
          by (subst toggle_attempts.simps) (simp add: Returns False w1)
      next
        case F: False
        let ?w2 = "if attempt < retries
                   then emit (Sleep (int backoff_seconds * attempt)) ?w1 else ?w1"
        from IH(2) [OF Returns F] obtain es where
          "trace (snd (toggle_attempts net payload retries backoff_seconds (attempt + 1)
             (Some r) ?w2)) = trace ?w2 @ es" "list_all is_io es"
          by blast
        then show ?thesis
          by (subst toggle_attempts.simps)
             (cases "attempt < retries"; simp add: Returns F False w1 emit_def Let_def)
      qed
    qed
  qed
qed

lemma toggle_strategy_io:
  "\<exists>es. trace (snd (toggle_strategy net sid state retries b w)) = trace w @ Toggle state # es
        \<and> list_all is_io es"
  using toggle_attempts_io [of net "toggle_payload sid state" retries b 1 None
      "emit (Toggle state) w"]
  by (simp add: toggle_strategy_def emit_def)

lemma step_log_simps [simp]:
  "step_log [] = []"
  "step_log (e # es) = mark_of e @ step_log es"
  "step_log (xs @ ys) = step_log xs @ step_log ys"
  by (simp_all add: step_log_def)

lemma wallet_lookups_simps [simp]:
  "wallet_lookups [] = 0"
  "wallet_lookups (e # es) = (if e = WalletLookup then 1 else 0) + wallet_lookups es"
  "wallet_lookups (xs @ ys) = wallet_lookups xs + wallet_lookups ys"
  by (simp_all add: wallet_lookups_def)

lemma mark_of_io: "is_io e \<Longrightarrow> mark_of e = []"
  by (cases e) simp_all

lemma step_log_io: "list_all is_io es \<Longrightarrow> step_log es = []"
  by (induction es) (simp_all add: mark_of_io)


lemma wallet_lookups_io: "list_all is_io es \<Longrightarrow> wallet_lookups es = 0"
  by (induction es) auto

lemma commands_append [simp]: "commands (xs @ ys) = commands xs @ commands ys"
  by (induction xs rule: commands.induct) simp_all


lemma command_step_log:
  "step_log (trace (snd (snd (command_step net sid state label i n rs w)))) =
     step_log (trace w) @ Issued state
       # (if fst (command_step net sid state label i n rs w) then [] else [Failed])"
proof -
  obtain es where
    "trace (snd (toggle_strategy net sid state 3 3 w)) = trace w @ Toggle state # es"
    "list_all is_io es"
    using toggle_strategy_io by blast
  then show ?thesis
    by (simp add: command_step_def Let_def emit_def step_log_io split: option.splits)
qed


lemma command_step_lookups:
  "wallet_lookups (trace (snd (snd (command_step net sid state label i n rs w)))) =
     wallet_lookups (trace w)"
proof -
  obtain es where
    "trace (snd (toggle_strategy net sid state 3 3 w)) = trace w @ Toggle state # es"
    "list_all is_io es"
    using toggle_strategy_io by blast
  then show ?thesis
    by (simp add: command_step_def Let_def emit_def wallet_lookups_io split: option.splits)
qed

lemma command_step_flag:
  "had_failure (fst (snd (command_step net sid state label i n rs w))) =
     (had_failure rs \<or> \<not> fst (command_step net sid state label i n rs w))"
  by (simp add: command_step_def Let_def split: option.splits)

lemma cycle_commands_step:
  "i < n \<Longrightarrow> cycle_commands (n - i) = ''Paused'' # ''Start'' # cycle_commands (n - (i + 1))"
proof -
  assume "i < n"
  then have "nat (n - i) = Suc (nat (n - (i + 1)))" by simp
  then show ?thesis by (simp add: cycle_commands_def)
qed

lemma cycles_log:
  "\<exists>m failed.
     step_log (trace (snd (cycles net sid n delay i rs w))) =
       step_log (trace w) @ map Issued (take m (cycle_commands (n - i)))
         @ (if failed then [Failed] else [])
     \<and> (failed \<longrightarrow> 1 \<le> m \<and> m \<le> 2 * nat (n - i))
     \<and> (\<not> failed \<longrightarrow> m = 2 * nat (n - i))
     \<and> had_failure (fst (cycles net sid n delay i rs w)) = (had_failure rs \<or> failed)
     \<and> wallet_lookups (trace (snd (cycles net sid n delay i rs w))) = wallet_lookups (trace w)"
proof (induction net sid n delay i rs w rule: cycles.induct)
  case (1 net sid n delay i rs w)
  show ?case
  proof (cases "n \<le> i")
    case True
    then have c: "cycles net sid n delay i rs w = (rs, w)"
      by (subst cycles.simps) simp
    show ?thesis
      unfolding c
      by (rule exI [of _ 0], rule exI [of _ False]) (use True in \<open>simp add: cycle_commands_def\<close>)
  next
    case False
    obtain g1 rs1 w1 where s1: "command_step net sid ''Paused'' ''STOP'' i n rs w = (g1, rs1, w1)"
      by (cases "command_step net sid ''Paused'' ''STOP'' i n rs w") auto
    have l1: "step_log (trace w1) = step_log (trace w) @ Issued ''Paused'' # (if g1 then [] else [Failed])"
      using command_step_log [of net sid "''Paused''" "''STOP''" i n rs w] s1 by simp
    have f1: "had_failure rs1 = (had_failure rs \<or> \<not> g1)"
      using command_step_flag [of net sid "''Paused''" "''STOP''" i n rs w] s1 by simp
    have k1: "wallet_lookups (trace w1) = wallet_lookups (trace w)"
      using command_step_lookups [of net sid "''Paused''" "''STOP''" i n rs w] s1 by simp
    have cc: "cycle_commands (n - i) = ''Paused'' # ''Start'' # cycle_commands (n - (i + 1))"
      using False by (simp add: cycle_commands_step)
    have pos: "nat (n - i) = Suc (nat (n - (i + 1)))" using False by simp
    show ?thesis
    proof (cases g1)
      case F1: False
      have c: "cycles net sid n delay i rs w = (rs1, w1)"
        by (subst cycles.simps) (simp add: False s1 F1)
      show ?thesis
        unfolding c
        by (rule exI [of _ 1], rule exI [of _ True]) (simp add: l1 f1 k1 F1 cc pos)
    next
      case T1: True
      let ?w1 = "emit (Sleep (int delay)) w1"
      obtain g2 rs2 w2 where
        s2: "command_step net sid ''Start'' ''START'' i n rs1 ?w1 = (g2, rs2, w2)"
        by (cases "command_step net sid ''Start'' ''START'' i n rs1 ?w1") auto
      have l2: "step_log (trace w2) =
          step_log (trace w) @ Issued ''Paused'' # Issued ''Start'' # (if g2 then [] else [Failed])"
        using command_step_log [of net sid "''Start''" "''START''" i n rs1 ?w1] s2
        by (simp add: l1 T1 emit_def)
      have f2: "had_failure rs2 = (had_failure rs \<or> \<not> g2)"
        using command_step_flag [of net sid "''Start''" "''START''" i n rs1 ?w1] s2 f1 T1
        by simp
      have k2: "wallet_lookups (trace w2) = wallet_lookups (trace w)"
        using command_step_lookups [of net sid "''Start''" "''START''" i n rs1 ?w1] s2 k1
        by (simp add: emit_def)
      show ?thesis
      proof (cases g2)
        case F2: False
        have c: "cycles net sid n delay i rs w = (rs2, w2)"
          by (subst cycles.simps) (simp add: False s1 T1 s2 F2)
        show ?thesis
          unfolding c
          by (rule exI [of _ 2], rule exI [of _ True]) (simp add: l2 f2 k2 F2 cc pos)
      next
        case T2: True
        let ?w2 = "if i < n - 1 then emit (Sleep (int delay)) w2 else w2"
        have c: "cycles net sid n delay i rs w = cycles net sid n delay (i + 1) rs2 ?w2"
          by (subst cycles.simps) (simp add: False s1 T1 s2 T2)
        have tw2: "step_log (trace ?w2) = step_log (trace w2)"
          "wallet_lookups (trace ?w2) = wallet_lookups (trace w2)"
          by (simp_all add: emit_def)
        from "1.IH" [OF False s1 [symmetric] refl _ s2 [symmetric] refl] T1 T2
        obtain m failed where
          IH: "step_log (trace (snd (cycles net sid n delay (i + 1) rs2 ?w2))) =
                 step_log (trace ?w2) @ map Issued (take m (cycle_commands (n - (i + 1))))
                   @ (if failed then [Failed] else [])"
              "failed \<longrightarrow> 1 \<le> m \<and> m \<le> 2 * nat (n - (i + 1))"
              "\<not> failed \<longrightarrow> m = 2 * nat (n - (i + 1))"
              "had_failure (fst (cycles net sid n delay (i + 1) rs2 ?w2)) = (had_failure rs2 \<or> failed)"
              "wallet_lookups (trace (snd (cycles net sid n delay (i + 1) rs2 ?w2))) =
                 wallet_lookups (trace ?w2)"
          by auto
        show ?thesis
          unfolding c
          by (rule exI [of _ "m + 2"], rule exI [of _ failed])
             (use IH in \<open>simp add: tw2 l2 f2 k2 T2 cc pos\<close>)
      qed
    qed
  qed
qed


declare cycles.simps [simp del]

lemma final_stop_lookups:
  "wallet_lookups (trace (snd (final_stop net sid rs w))) = wallet_lookups (trace w)"
proof -
  obtain es where
    "trace (snd (toggle_strategy net sid ''Paused'' 3 3 w)) = trace w @ Toggle ''Paused'' # es"
    "list_all is_io es"
    using toggle_strategy_io by blast
  then show ?thesis
    by (simp add: final_stop_def Let_def wallet_lookups_io)
qed


lemma accepted_iff:
  "accepted response = (\<exists>r. response = Some r \<and> status_code r = 200)"
  by (auto simp: accepted_def response_ok_def split: option.splits)













lemma script_const [simp]: "script [] rest = (\<lambda>n. rest)"
  by (rule ext) simp

lemmas run_eval =
  toggle_run_def cycles.simps command_step_def final_stop_def toggle_strategy_def
  toggle_attempts.simps http_request_def emit_def fresh_def accepted_def shown_status_def
  failure_lines_def response_ok_def plain_response_def fetch_wallet_running_count_def
  api_running_def Let_def



section \<open>The orchestrator: classification of a step, running-count lookup\<close>

text \<open>
  C2, as the code has it. Let \<open>response\<close> be what \<^verbatim>\<open>toggle_strategy\<close> returns for a step.
  The step succeeds exactly when \<open>response\<close> is a response with status 200: nothing is
  recorded when its body decodes; when its body does not decode, the line
  \<^verbatim>\<open>... command JSON parse error\<close> is appended to \<^verbatim>\<open>error_details\<close> and sent as a notice,
  \<^verbatim>\<open>had_failure\<close> stays as it is and the loop goes on. Any other outcome (another status,
  or no response) is a failed step: the failure line, and the start of the body when
  there is a response, are appended, \<^verbatim>\<open>had_failure\<close> is set, the notice of failure is
  sent and the step reports that the loop ends. The loop itself: it ends at once after
  a failed \<^verbatim>\<open>STOP\<close> and after a failed \<^verbatim>\<open>START\<close>, with no further command, and goes on to the
  next cycle after two steps that succeeded.
\<close>

theorem command_step_classification:
  assumes ts: "toggle_strategy net sid state 3 3 w = (response, w1)"
    and stop: "command_step net sid ''Paused'' ''STOP'' i n rs w = (g1, rs1, v1)"
    and start: "command_step net sid ''Start'' ''START'' i n rs1 (emit (Sleep (int delay)) v1)
                  = (g2, rs2, v2)"
  shows
   "((\<exists>r. response = Some r \<and> status_code r = 200 \<and> json_body r \<noteq> None) \<longrightarrow>
       command_step net sid state label i n rs w = (True, rs, w1))
    \<and> ((\<exists>r. response = Some r \<and> status_code r = 200 \<and> json_body r = None) \<longrightarrow>
       command_step net sid state label i n rs w =
         (True, rs\<lparr>error_details := error_details rs @ [JsonParseDetail label]\<rparr>,
          emit (Notify (JsonParseError label)) w1))
    \<and> (\<not> (\<exists>r. response = Some r \<and> status_code r = 200) \<longrightarrow>
       command_step net sid state label i n rs w =
         (False,
          rs\<lparr>error_details := error_details rs
                 @ FailedDetail label (i + 1) n (shown_status response)
                 # (case response of
                      None \<Rightarrow> []
                    | Some r \<Rightarrow> [ResponseDetail (take 200 (body_text r))]),
             had_failure := True\<rparr>,
          emit (Notify (CommandFailed label (i + 1) n (shown_status response))) w1))
    \<and> (n \<le> i \<longrightarrow> cycles net sid n delay i rs w = (rs, w))
    \<and> (i < n \<and> \<not> g1 \<longrightarrow> cycles net sid n delay i rs w = (rs1, v1))
    \<and> (i < n \<and> g1 \<and> \<not> g2 \<longrightarrow> cycles net sid n delay i rs w = (rs2, v2))
    \<and> (i < n \<and> g1 \<and> g2 \<longrightarrow>
       cycles net sid n delay i rs w =
         cycles net sid n delay (i + 1) rs2
           (if i < n - 1 then emit (Sleep (int delay)) v2 else v2))"
proof (intro conjI impI)
  assume "\<exists>r. response = Some r \<and> status_code r = 200 \<and> json_body r \<noteq> None"
  then show "command_step net sid state label i n rs w = (True, rs, w1)"
    by (auto simp: command_step_def ts accepted_iff)
next
  assume "\<exists>r. response = Some r \<and> status_code r = 200 \<and> json_body r = None"
  then show "command_step net sid state label i n rs w =
         (True, rs\<lparr>error_details := error_details rs @ [JsonParseDetail label]\<rparr>,
          emit (Notify (JsonParseError label)) w1)"
    by (auto simp: command_step_def ts accepted_iff)
next
  assume "\<not> (\<exists>r. response = Some r \<and> status_code r = 200)"
  then show "command_step net sid state label i n rs w =
         (False,
          rs\<lparr>error_details := error_details rs
                 @ FailedDetail label (i + 1) n (shown_status response)
                 # (case response of
                      None \<Rightarrow> []
                    | Some r \<Rightarrow> [ResponseDetail (take 200 (body_text r))]),
             had_failure := True\<rparr>,
          emit (Notify (CommandFailed label (i + 1) n (shown_status response))) w1)"
    by (simp add: command_step_def ts accepted_iff failure_lines_def split: option.splits)
next
  assume "n \<le> i"
  then show "cycles net sid n delay i rs w = (rs, w)"
    by (subst cycles.simps) simp
next
  assume "i < n \<and> \<not> g1"
  then show "cycles net sid n delay i rs w = (rs1, v1)"
    by (subst cycles.simps) (simp add: stop)
next
  assume "i < n \<and> g1 \<and> \<not> g2"
  then show "cycles net sid n delay i rs w = (rs2, v2)"
    by (subst cycles.simps) (simp add: stop start)
next
  assume "i < n \<and> g1 \<and> g2"
  then show "cycles net sid n delay i rs w =
         cycles net sid n delay (i + 1) rs2
           (if i < n - 1 then emit (Sleep (int delay)) v2 else v2)"
    by (subst cycles.simps) (simp add: stop start)
qed

theorem command_step_classification_witness:
  "command_step undecodable_then_refused (JInt 7) ''Paused'' ''STOP'' 0 3
     \<lparr>had_failure = False, error_details = []\<rparr> fresh =
     (True, \<lparr>had_failure = False, error_details = [JsonParseDetail ''STOP'']\<rparr>,
      \<lparr>sent = 1,
       trace = [Toggle ''Paused'',
                Request POST toggle_url (Some (toggle_payload (JInt 7) ''Paused'')),
                Notify (JsonParseError ''STOP'')]\<rparr>)
   \<and> cycles undecodable_then_refused (JInt 7) 3 1 0
       \<lparr>had_failure = False, error_details = []\<rparr> fresh =
     (\<lparr>had_failure = True,
       error_details = [JsonParseDetail ''STOP'', FailedDetail ''START'' 1 3 None,
                        ResponseDetail []]\<rparr>,
      \<lparr>sent = 2,
       trace = [Toggle ''Paused'',
                Request POST toggle_url (Some (toggle_payload (JInt 7) ''Paused'')),
                Notify (JsonParseError ''STOP''), Sleep 1, Toggle ''Start'',
                Request POST toggle_url (Some (toggle_payload (JInt 7) ''Start'')),
                Notify (CommandFailed ''START'' 1 3 None)]\<rparr>)"
proof -
  let ?rs = "\<lparr>had_failure = False, error_details = []\<rparr>"
  let ?w1 = "\<lparr>sent = 1,
       trace = [Toggle ''Paused'',
                Request POST toggle_url (Some (toggle_payload (JInt 7) ''Paused''))]\<rparr>"
  let ?rs1 = "\<lparr>had_failure = False, error_details = [JsonParseDetail ''STOP'']\<rparr>"
  let ?v1 = "emit (Notify (JsonParseError ''STOP'')) ?w1"
  let ?rs2 = "\<lparr>had_failure = True,
       error_details = [JsonParseDetail ''STOP'', FailedDetail ''START'' 1 3 None,
                        ResponseDetail []]\<rparr>"
  let ?v2 = "\<lparr>sent = 2,
       trace = [Toggle ''Paused'',
                Request POST toggle_url (Some (toggle_payload (JInt 7) ''Paused'')),
                Notify (JsonParseError ''STOP''), Sleep 1, Toggle ''Start'',
                Request POST toggle_url (Some (toggle_payload (JInt 7) ''Start'')),
                Notify (CommandFailed ''START'' 1 3 None)]\<rparr>"
  have ts: "toggle_strategy undecodable_then_refused (JInt 7) ''Paused'' 3 3 fresh
      = (Some (plain_response 200), ?w1)"
    by (simp add: undecodable_then_refused_def toggle_strategy_def toggle_attempts.simps
          http_request_def emit_def fresh_def plain_response_def)
  have stop: "command_step undecodable_then_refused (JInt 7) ''Paused'' ''STOP'' 0 3 ?rs fresh
      = (True, ?rs1, ?v1)"
    by (simp add: undecodable_then_refused_def run_eval)
  have start: "command_step undecodable_then_refused (JInt 7) ''Start'' ''START'' 0 3 ?rs1
      (emit (Sleep (int 1)) ?v1) = (False, ?rs2, ?v2)"
    by (simp add: undecodable_then_refused_def run_eval)
  note inst = command_step_classification [OF ts stop start, of "''STOP''"]
  have undecodable: "\<exists>r. Some (plain_response 200) = Some r \<and> status_code r = 200
      \<and> json_body r = None"
    by (simp add: plain_response_def)
  have failed_start: "(0::int) < 3 \<and> True \<and> \<not> False" by simp
  from inst [THEN conjunct2, THEN conjunct1, THEN mp, OF undecodable]
    inst [THEN conjunct2, THEN conjunct2, THEN conjunct2, THEN conjunct2, THEN conjunct2,
         THEN conjunct1, THEN mp, OF failed_start]
  show ?thesis by (simp add: emit_def)
qed

text \<open>
  C2 as stated fails: with a transport that answers every request with status 200 and
  a body that is not JSON, the first step is not classified as failed, the failure flag
  stays unset, the cycle and the closing command are issued, and the run exits with 0.
\<close>

theorem undecodable_200_step_not_failed:
  "json_body (plain_response 200) = None
   \<and> fst (toggle_strategy (script [] (Returns (plain_response 200))) (JInt 7) ''Paused'' 3 3 fresh)
       = Some (plain_response 200)
   \<and> fst (command_step (script [] (Returns (plain_response 200))) (JInt 7) ''Paused'' ''STOP'' 0 1
          \<lparr>had_failure = False, error_details = []\<rparr> fresh)
   \<and> \<not> had_failure (fst (snd (command_step (script [] (Returns (plain_response 200))) (JInt 7)
          ''Paused'' ''STOP'' 0 1 \<lparr>had_failure = False, error_details = []\<rparr> fresh)))
   \<and> commands (trace (snd (toggle_run (script [] (Returns (plain_response 200))) (JInt 7) 1 1 fresh)))
       = [''Paused'', ''Start'', ''Paused'']
   \<and> fst (toggle_run (script [] (Returns (plain_response 200))) (JInt 7) 1 1 fresh) = 0"
  by (simp add: run_eval)


lemma fetch_wallet_result:
  "fetch_wallet_running_count net w =
     (case api_running (net (sent w)) of
        Some c \<Rightarrow> Some c
      | None \<Rightarrow>
          (case net (Suc (sent w)) of
             Raises \<Rightarrow> None
           | Returns r \<Rightarrow> if status_code r = 200 then running_match r else None),
      \<lparr>sent = (if api_running (net (sent w)) = None then sent w + 2 else sent w + 1),
       trace = trace w @ WalletLookup # Request GET wallet_url None
         # (if api_running (net (sent w)) = None then [Request GET dashboard_url None] else [])\<rparr>)"
  by (simp add: fetch_wallet_running_count_def Let_def http_request_def emit_def
        split: option.splits outcome.splits)

text \<open>
  C9, as the code has it. Let \<open>rs2\<close> and \<open>w2\<close> be the run state and the world after the
  closing command. When \<^verbatim>\<open>had_failure\<close> is set the run exits with 1 and does nothing more
  than send the notice of failure with the failure details: no lookup. Otherwise the
  run exits with 0 and does exactly one lookup: the marker, the request of the API, the
  request of the dashboard only when the API gave no count, then the notice of success
  carrying what the lookup returned. The lookup returns the count of the API when there
  is one, else the number matched in a dashboard answered with status 200, and nothing
  when both requests fail; the exit code is 0 all the same. No lookup happens before the
  closing command.
\<close>

theorem running_count_lookup_after_success:
  assumes "cycles net sid n delay 0 \<lparr>had_failure = False, error_details = []\<rparr> w = (rs, w1)"
    and "final_stop net sid rs w1 = (rs2, w2)"
  shows
    "(had_failure rs2 \<longrightarrow>
        toggle_run net sid n delay w =
          (1, w2\<lparr>trace := trace w2 @ [Notify (RunFailed (error_details rs2))]\<rparr>))
     \<and> (\<not> had_failure rs2 \<longrightarrow>
        fst (toggle_run net sid n delay w) = 0
        \<and> trace (snd (toggle_run net sid n delay w)) =
            trace w2 @ WalletLookup # Request GET wallet_url None
              # (if api_running (net (sent w2)) = None
                 then [Request GET dashboard_url None] else [])
              @ [Notify (RunSucceeded n (fst (fetch_wallet_running_count net w2)))])
     \<and> (lookup_fails net (sent w2) \<longrightarrow> fst (fetch_wallet_running_count net w2) = None)
     \<and> (\<forall>c. api_running (net (sent w2)) = Some c \<longrightarrow>
           fst (fetch_wallet_running_count net w2) = Some c)
     \<and> (\<forall>r. api_running (net (sent w2)) = None \<and> net (Suc (sent w2)) = Returns r
             \<and> status_code r = 200 \<longrightarrow>
           fst (fetch_wallet_running_count net w2) = running_match r)
     \<and> wallet_lookups (trace w2) = wallet_lookups (trace w)
     \<and> wallet_lookups (trace (snd (toggle_run net sid n delay w))) =
         wallet_lookups (trace w) + (if had_failure rs2 then 0 else 1)"
proof -
  have k1: "wallet_lookups (trace w1) = wallet_lookups (trace w)"
    using cycles_log [of net sid n delay 0 "\<lparr>had_failure = False, error_details = []\<rparr>" w]
      assms(1) by auto
  have k2: "wallet_lookups (trace w2) = wallet_lookups (trace w1)"
    using final_stop_lookups [of net sid rs w1] assms(2) by simp
  show ?thesis
    by (simp add: toggle_run_def assms fetch_wallet_result emit_def k1 k2 lookup_fails_def
          split: option.splits outcome.splits)
qed

theorem running_count_lookup_after_success_witness:
  "toggle_run (script [] (Returns (plain_response 200))) (JInt 7) 1 1 fresh =
     (0, \<lparr>sent = 5,
          trace = [Toggle ''Paused'',
                   Request POST toggle_url (Some (toggle_payload (JInt 7) ''Paused'')),
                   Notify (JsonParseError ''STOP''), Sleep 1,
                   Toggle ''Start'',
                   Request POST toggle_url (Some (toggle_payload (JInt 7) ''Start'')),
                   Notify (JsonParseError ''START''),
                   Toggle ''Paused'',
                   Request POST toggle_url (Some (toggle_payload (JInt 7) ''Paused'')),
                   WalletLookup, Request GET wallet_url None, Request GET dashboard_url None,
                   Notify (RunSucceeded 1 None)]\<rparr>)
   \<and> lookup_fails (script [] (Returns (plain_response 200))) 3
   \<and> snd (toggle_run (script [] (Returns (plain_response 404))) (JInt 7) 2 1 fresh) =
       \<lparr>sent = 2,
        trace = [Toggle ''Paused'',
                 Request POST toggle_url (Some (toggle_payload (JInt 7) ''Paused'')),
                 Notify (CommandFailed ''STOP'' 1 2 None),
                 Toggle ''Paused'',
                 Request POST toggle_url (Some (toggle_payload (JInt 7) ''Paused'')),
                 Notify (RunFailed [FailedDetail ''STOP'' 1 2 None, ResponseDetail [],
                                    FinalStopDetail None, ResponseDetail []])]\<rparr>"
  using running_count_lookup_after_success [OF prod.collapse [symmetric] prod.collapse [symmetric],
      of "script [] (Returns (plain_response 200))" "JInt 7" 1 1 fresh]
    running_count_lookup_after_success [OF prod.collapse [symmetric] prod.collapse [symmetric],
      of "script [] (Returns (plain_response 404))" "JInt 7" 2 1 fresh]
  by (simp add: run_eval lookup_fails_def toggle_url_def toggle_payload_def wallet_url_def
        dashboard_url_def)

text \<open>
  C9 as stated fails: a run whose first command is answered with status 404 is a
  failed run, and its trace has no running-count lookup.
\<close>

theorem failed_run_without_lookup:
  "fst (toggle_run (script [] (Returns (plain_response 404))) (JInt 7) 2 1 fresh) = 1
   \<and> wallet_lookups (trace (snd (toggle_run (script [] (Returns (plain_response 404)))
        (JInt 7) 2 1 fresh))) = 0"
  by (simp add: run_eval)

section \<open>The session store\<close>

lemma load_session_trace:
  "\<exists>es. trace (snd (load_session net src w)) = trace w @ es \<and> commands es = []
        \<and> wallet_lookups es = 0"
  by (auto simp: load_session_def validate_session_def Let_def http_request_def emit_def
        split: option.splits pickled.splits outcome.splits)

lemma load_session_some:
  "(\<exists>session. fst (load_session net src w) = Inr (Some session)) =
     (blob_available src
      \<and> (\<exists>cookies. unpickled src = Some (Cookies cookies)
            \<and> \<not> list_ex (\<lambda>cookie. cookie_domain cookie = None) cookies)
      \<and> (\<exists>r. net (sent w) = Returns r \<and> status_code r = 200))"
  by (auto simp: load_session_def validate_session_def blob_available_def Let_def
        http_request_def split: option.splits pickled.splits outcome.splits)

lemma main_without_session:
  "\<not> (\<exists>session. fst (load_session net src w) = Inr (Some session)) \<Longrightarrow>
   fst (main net src sid n delay w) = 1 \<and>
   commands (trace (snd (main net src sid n delay w))) = commands (trace w)"
proof -
  assume h: "\<not> (\<exists>session. fst (load_session net src w) = Inr (Some session))"
  obtain res w1 where l: "load_session net src w = (res, w1)"
    by (cases "load_session net src w") auto
  obtain es where es: "trace w1 = trace w @ es" "commands es = []"
    using load_session_trace [of net src w] l by auto
  from h l have "res \<noteq> Inr (Some s)" for s by auto
  then show ?thesis
    by (cases res; simp add: main_def l es emit_def split: option.splits)
qed

text \<open>
  C8. \<^verbatim>\<open>load_session\<close> returns a session only when a blob is at hand, \<^verbatim>\<open>pickle.load\<close>
  yields a list of cookie records, and the validation request returns a response with
  status exactly 200. When the blob is missing or does not decode, or the validation
  request raises or returns another status, no session is returned (the function
  returns \<^verbatim>\<open>None\<close>, or the exception of \<^verbatim>\<open>pickle.load\<close> or of the installing loop leaves
  it), \<^verbatim>\<open>main\<close> exits with 1 and issues no toggle command.
\<close>

theorem load_session_validated:
  "((\<exists>session. fst (load_session net src w) = Inr (Some session)) \<longrightarrow>
      blob_available src \<and> (\<exists>cookies. unpickled src = Some (Cookies cookies))
      \<and> (\<exists>r. net (sent w) = Returns r \<and> status_code r = 200))
   \<and> (\<not> blob_available src \<or> (\<forall>cookies. unpickled src \<noteq> Some (Cookies cookies))
        \<or> net (sent w) = Raises \<or> (\<exists>r. net (sent w) = Returns r \<and> status_code r \<noteq> 200)
      \<longrightarrow> (\<forall>session. fst (load_session net src w) \<noteq> Inr (Some session))
          \<and> fst (main net src sid n delay w) = 1
          \<and> commands (trace (snd (main net src sid n delay w))) = commands (trace w))"
proof (intro conjI impI)
  assume "\<exists>session. fst (load_session net src w) = Inr (Some session)"
  then show "blob_available src" "\<exists>cookies. unpickled src = Some (Cookies cookies)"
    "\<exists>r. net (sent w) = Returns r \<and> status_code r = 200"
    by (auto simp: load_session_some)
next
  assume h: "\<not> blob_available src \<or> (\<forall>cookies. unpickled src \<noteq> Some (Cookies cookies))
        \<or> net (sent w) = Raises \<or> (\<exists>r. net (sent w) = Returns r \<and> status_code r \<noteq> 200)"
  then have no: "\<not> (\<exists>session. fst (load_session net src w) = Inr (Some session))"
    by (auto simp: load_session_some)
  then show "\<forall>session. fst (load_session net src w) \<noteq> Inr (Some session)" by blast
  from main_without_session [OF no]
  show "fst (main net src sid n delay w) = 1"
    "commands (trace (snd (main net src sid n delay w))) = commands (trace w)"
    by simp_all
qed


theorem load_session_validated_witness:
  "fst (load_session (script [] (Returns (plain_response 200))) saved_cookies fresh) =
     Inr (Some [Cookie ''XSRF-TOKEN'' ''t0ken'' (Some ''tradetron.tech'')])
   \<and> blob_available saved_cookies
   \<and> fst (load_session (script [] (Returns (plain_response 401))) saved_cookies fresh) = Inr None
   \<and> fst (main (script [] (Returns (plain_response 401))) saved_cookies (JInt 7) 2 1 fresh) = 1
   \<and> commands (trace (snd (main (script [] (Returns (plain_response 401))) saved_cookies
        (JInt 7) 2 1 fresh))) = []
   \<and> fst (load_session (script [] Raises) (saved_cookies\<lparr>unpickled := None\<rparr>) fresh)
        = Inl PickleError
   \<and> fst (main (script [] Raises) (saved_cookies\<lparr>unpickled := None\<rparr>) (JInt 7) 2 1 fresh) = 1"
  using load_session_validated [of "script [] (Returns (plain_response 200))" saved_cookies fresh
      "JInt 7" 2 1]
    load_session_validated [of "script [] (Returns (plain_response 401))" saved_cookies fresh
      "JInt 7" 2 1]
    load_session_validated [of "script [] Raises" "saved_cookies\<lparr>unpickled := None\<rparr>" fresh
      "JInt 7" 2 1]
  by (simp add: load_session_def validate_session_def saved_cookies_def blob_available_def
        http_request_def fresh_def plain_response_def Let_def main_def emit_def)

section \<open>The status resolver: probe chain\<close>

lemma run_probes_wins:
  "k < length ps \<Longrightarrow> \<forall>i<k. probe_fails (net (sent w + i)) \<Longrightarrow>
   net (sent w + k) = Returns r \<Longrightarrow> status_code r = 200 \<Longrightarrow> json_body r = Some d \<Longrightarrow>
   truthy d \<Longrightarrow>
   run_probes net ps data response w =
     ((Some d, Some r),
      \<lparr>sent = sent w + k + 1, trace = trace w @ map probe_request (take (Suc k) ps)\<rparr>)"
proof (induction ps arbitrary: k data response w)
  case Nil
  then show ?case by simp
next
  case (Cons p ps)
  show ?case
  proof (cases k)
    case 0
    with Cons.prems show ?thesis
      by (simp add: http_request_def probe_request_def)
  next
    case (Suc j)
    let ?w1 = "snd (http_request net (probe_method p) (probe_url p) (probe_json p) w)"
    have w1: "sent ?w1 = Suc (sent w)" "trace ?w1 = trace w @ [probe_request p]"
      by (simp_all add: http_request_def probe_request_def)
    have f0: "probe_fails (net (sent w))" using Cons.prems(2) Suc by force
    have all: "\<forall>i<j. probe_fails (net (sent ?w1 + i))"
      using Cons.prems(2) Suc w1 by (metis Suc_less_eq add_Suc_shift)
    have IH: "run_probes net ps data' response' ?w1 =
       ((Some d, Some r),
        \<lparr>sent = sent ?w1 + j + 1, trace = trace ?w1 @ map probe_request (take (Suc j) ps)\<rparr>)"
      for data' response'
      by (rule Cons.IH [OF _ all]) (use Cons.prems Suc w1 in auto)
    from f0 show ?thesis
      by (auto simp: probe_fails_def request_outcome Let_def IH w1 Suc
          split: outcome.splits option.splits)
  qed
qed


lemma run_probes_all_fail:
  "\<forall>i<length ps. probe_fails (net (sent w + i)) \<Longrightarrow> unusable data \<Longrightarrow>
   \<exists>data' response'.
     run_probes net ps data response w =
       ((data', response'),
        \<lparr>sent = sent w + length ps, trace = trace w @ map probe_request ps\<rparr>)
     \<and> unusable data'"
proof (induction ps arbitrary: data response w)
  case Nil
  then show ?case by simp
next
  case (Cons p ps)
  let ?w1 = "snd (http_request net (probe_method p) (probe_url p) (probe_json p) w)"
  have w1: "sent ?w1 = Suc (sent w)" "trace ?w1 = trace w @ [probe_request p]"
    by (simp_all add: http_request_def probe_request_def)
  have f0: "probe_fails (net (sent w))" using Cons.prems(1) by force
  have all: "\<forall>i<length ps. probe_fails (net (sent ?w1 + i))"
    using Cons.prems(1) w1 by (metis Suc_less_eq add_Suc_shift length_Cons)
  have IH: "unusable data' \<Longrightarrow> \<exists>data'' response''.
     run_probes net ps data' response' ?w1 =
       ((data'', response''),
        \<lparr>sent = sent ?w1 + length ps, trace = trace ?w1 @ map probe_request ps\<rparr>)
     \<and> unusable data''" for data' response'
    by (rule Cons.IH [OF all])
  show ?case
  proof (cases "net (sent w)")
    case Raises
    with IH [OF Cons.prems(2), of response] show ?thesis
      by (simp add: request_outcome w1 Let_def)
  next
    case (Returns r)
    show ?thesis
    proof (cases "status_code r \<noteq> 200 \<or> json_body r = None")
      case True
      with Returns IH [OF Cons.prems(2), of "Some r"] show ?thesis
        by (auto simp: request_outcome w1 Let_def)
    next
      case False
      then obtain d where d: "json_body r = Some d" "status_code r = 200" by auto
      with f0 Returns have nt: "\<not> truthy d" by (simp add: probe_fails_def)
      then have "unusable (Some d)" by (simp add: unusable_def)
      from IH [OF this, of "Some r"] Returns d nt show ?thesis
        by (simp add: request_outcome w1 Let_def)
    qed
  qed
qed

lemma probes_length: "length (probes sid) = 3"
  by (simp add: probes_def)

text \<open>
  C3, as the code has it. The probes are the POST of the filter query, the GET of the
  status endpoint and the GET of the details endpoint, in this order. When the first
  \<open>k\<close> probes each fail (exception, status other than 200, body that does not decode, or
  decoded value that is empty or otherwise false) and the next probe returns status 200
  with a decoded value that is true, that value is the one searched, and the requests
  sent are exactly these \<open>k + 1\<close> probes: no later probe, no markup request. When all
  three probes fail, all three are sent, followed by the request of the dashboard
  markup.
\<close>

theorem probe_chain_first_usable_wins:
  "map probe_request (probes sid) =
     [Request POST ''https://tradetron.tech/api/user/filter/dashboard'' (Some filter_query),
      Request GET (''https://tradetron.tech/api/deployed/status?id='' @ py_str sid) None,
      Request GET (''https://tradetron.tech/api/deployed/details?id='' @ py_str sid) None]
   \<and> (k < 3 \<and> (\<forall>i<k. probe_fails (net (sent w + i))) \<and> net (sent w + k) = Returns r
        \<and> status_code r = 200 \<and> json_body r = Some d \<and> truthy d \<longrightarrow>
      fetch_current_status net iks sks sid w =
        (Inr (find_status iks sks sid d, Some r),
         \<lparr>sent = sent w + k + 1,
          trace = trace w @ map probe_request (take (Suc k) (probes sid))\<rparr>))
   \<and> ((\<forall>i<3. probe_fails (net (sent w + i))) \<longrightarrow>
      trace (snd (fetch_current_status net iks sks sid w)) =
        trace w @ map probe_request (probes sid) @ [Request GET dashboard_url None])"
proof (intro conjI impI)
  show "map probe_request (probes sid) =
     [Request POST ''https://tradetron.tech/api/user/filter/dashboard'' (Some filter_query),
      Request GET (''https://tradetron.tech/api/deployed/status?id='' @ py_str sid) None,
      Request GET (''https://tradetron.tech/api/deployed/details?id='' @ py_str sid) None]"
    by (simp add: probes_def probe_request_def)
next
  assume h: "k < 3 \<and> (\<forall>i<k. probe_fails (net (sent w + i))) \<and> net (sent w + k) = Returns r
        \<and> status_code r = 200 \<and> json_body r = Some d \<and> truthy d"
  then have "run_probes net (probes sid) None None w =
     ((Some d, Some r),
      \<lparr>sent = sent w + k + 1, trace = trace w @ map probe_request (take (Suc k) (probes sid))\<rparr>)"
    by (intro run_probes_wins) (simp_all add: probes_length)
  with h show "fetch_current_status net iks sks sid w =
        (Inr (find_status iks sks sid d, Some r),
         \<lparr>sent = sent w + k + 1,
          trace = trace w @ map probe_request (take (Suc k) (probes sid))\<rparr>)"
    by (simp add: fetch_current_status_def)
next
  assume "\<forall>i<3. probe_fails (net (sent w + i))"
  then have "\<forall>i<length (probes sid). probe_fails (net (sent w + i))"
    by (simp add: probes_length)
  from run_probes_all_fail [OF this, of None None]
  obtain data' response' where
    rp: "run_probes net (probes sid) None None w =
       ((data', response'),
        \<lparr>sent = sent w + length (probes sid), trace = trace w @ map probe_request (probes sid)\<rparr>)"
    and un: "unusable data'"
    by (auto simp: unusable_def)
  have fb: "trace (snd (html_fallback net sid response' w')) =
      trace w' @ [Request GET dashboard_url None]" for w'
    by (simp add: html_fallback_def fetch_status_from_html_def Let_def http_request_def
          split: outcome.splits option.splits)
  from un show "trace (snd (fetch_current_status net iks sks sid w)) =
        trace w @ map probe_request (probes sid) @ [Request GET dashboard_url None]"
    by (cases data') (simp_all add: fetch_current_status_def rp fb unusable_def)
qed


lemmas find_eval =
  id_keys_def status_keys_def node_status_def id_matches_def status_text_def py_str_def
  example_payload_def

lemma find_example: "find_status id_keys status_keys (JStr ''42'') example_payload = ''Running''"
  by (simp add: find_eval)

lemma truthy_example: "truthy example_payload"
  by (simp add: example_payload_def)

theorem probe_chain_first_usable_wins_witness:
  "fetch_current_status
     (script [Returns (plain_response 503), Returns (json_response example_payload)] Raises)
     id_keys status_keys (JStr ''42'') fresh =
     (Inr (''Running'', Some (json_response example_payload)),
      \<lparr>sent = 2,
       trace =
         [Request POST ''https://tradetron.tech/api/user/filter/dashboard'' (Some filter_query),
          Request GET ''https://tradetron.tech/api/deployed/status?id=42'' None]\<rparr>)
   \<and> trace (snd (fetch_current_status (script [] (Returns (plain_response 503)))
        id_keys status_keys (JStr ''42'') fresh)) =
     [Request POST ''https://tradetron.tech/api/user/filter/dashboard'' (Some filter_query),
      Request GET ''https://tradetron.tech/api/deployed/status?id=42'' None,
      Request GET ''https://tradetron.tech/api/deployed/details?id=42'' None,
      Request GET dashboard_url None]"
proof
  let ?net = "script [Returns (plain_response 503), Returns (json_response example_payload)] Raises"
  have c: "Suc 0 < 3 \<and> (\<forall>i<Suc 0. probe_fails (?net (sent fresh + i)))
      \<and> ?net (sent fresh + Suc 0) = Returns (json_response example_payload)
      \<and> status_code (json_response example_payload) = 200
      \<and> json_body (json_response example_payload) = Some example_payload
      \<and> truthy example_payload"
    by (simp add: fresh_def probe_fails_def plain_response_def json_response_def
          example_payload_def)
  from probe_chain_first_usable_wins [of "JStr ''42''" "Suc 0" ?net fresh
      "json_response example_payload" example_payload id_keys status_keys,
      THEN conjunct2, THEN conjunct1, THEN mp, OF c]
  show "fetch_current_status ?net id_keys status_keys (JStr ''42'') fresh =
     (Inr (''Running'', Some (json_response example_payload)),
      \<lparr>sent = 2,
       trace =
         [Request POST ''https://tradetron.tech/api/user/filter/dashboard'' (Some filter_query),
          Request GET ''https://tradetron.tech/api/deployed/status?id=42'' None]\<rparr>)"
    by (simp add: find_example fresh_def probes_def probe_request_def py_str_def)
next
  let ?net = "script [] (Returns (plain_response 503))"
  have c: "\<forall>i<3. probe_fails (?net (sent fresh + i))"
    by (simp add: probe_fails_def plain_response_def)
  from probe_chain_first_usable_wins [of "JStr ''42''" 0 ?net fresh "plain_response 503" JNull
      id_keys status_keys, THEN conjunct2, THEN conjunct2, THEN mp, OF c]
  show "trace (snd (fetch_current_status ?net id_keys status_keys (JStr ''42'') fresh)) =
     [Request POST ''https://tradetron.tech/api/user/filter/dashboard'' (Some filter_query),
      Request GET ''https://tradetron.tech/api/deployed/status?id=42'' None,
      Request GET ''https://tradetron.tech/api/deployed/details?id=42'' None,
      Request GET dashboard_url None]"
    by (simp add: fresh_def probes_def probe_request_def py_str_def)
qed

text \<open>
  C3 as stated fails: the first probe returns status 200 and the decodable JSON \<^verbatim>\<open>{}\<close>,
  yet the second probe is sent and its payload is the one searched.
\<close>

theorem empty_json_probe_does_not_win:
  "json_body (json_response (JObj [])) = Some (JObj [])
   \<and> fetch_current_status
       (script [Returns (json_response (JObj [])), Returns (json_response example_payload)] Raises)
       id_keys status_keys (JStr ''42'') fresh =
     (Inr (''Running'', Some (json_response example_payload)),
      \<lparr>sent = 2,
       trace =
         [Request POST ''https://tradetron.tech/api/user/filter/dashboard'' (Some filter_query),
          Request GET ''https://tradetron.tech/api/deployed/status?id=42'' None]\<rparr>)"
  by (simp add: fetch_current_status_def probes_def http_request_def fresh_def json_response_def
        find_example truthy_example Let_def py_str_def)

text \<open>
  C7 fails on the code: with three probes answered by status 503 and a transport
  exception on the request of the dashboard markup, \<^verbatim>\<open>fetch_current_status\<close> does not
  return: the exception of \<^verbatim>\<open>session.get\<close> in \<^verbatim>\<open>fetch_status_from_html\<close> leaves it.
\<close>

theorem fetch_current_status_raises:
  "fst (fetch_current_status
          (script [Returns (plain_response 503), Returns (plain_response 503),
                   Returns (plain_response 503)] Raises)
          id_keys status_keys (JInt 42) fresh) = Inl TransportError"
  by (simp add: fetch_current_status_def probes_def http_request_def fresh_def
        plain_response_def html_fallback_def fetch_status_from_html_def Let_def)

section \<open>The status resolver: extraction from JSON\<close>

lemma id_matches_iff:
  "id_matches iks sid node =
     (\<exists>key\<in>set iks. \<exists>v. map_of node key = Some v \<and> py_str v = py_str sid)"
  by (auto simp: id_matches_def list_ex_iff split: option.splits)

lemma find_status_by_str:
  assumes "py_str sid = py_str sid'"
  shows "find_status iks sks sid doc = find_status iks sks sid' doc"
    and "find_status_values iks sks sid kvs = find_status_values iks sks sid' kvs"
    and "find_status_items iks sks sid xs = find_status_items iks sks sid' xs"
  using assms
  by (induction iks sks sid doc and iks sks sid kvs and iks sks sid xs
        rule: find_status_find_status_values_find_status_items.induct)
     (simp_all add: node_status_def id_matches_iff Let_def split: option.splits)

lemma first_present_only:
  "k \<in> set ks \<Longrightarrow> map_of node k = Some v \<Longrightarrow>
   \<forall>k'\<in>set ks. k' \<noteq> k \<longrightarrow> map_of node k' = None \<Longrightarrow>
   first_present ks node = Some v"
  by (induction ks) (auto split: option.splits)

lemma str_42: "py_str (JInt 42) = ''42''"
  by (simp add: py_str_def str_int_def digits.simps)

lemma py_str_JStr: "py_str (JStr s) = s"
  by (simp add: py_str_def)

lemma record_found:
  assumes "set iks = set id_keys" and "set sks = set status_keys"
    and "py_str ident = py_str sid"
  shows "find_status iks sks sid (JObj [(''id'', ident), (''status'', JStr ''Running'')])
           = ''Running''"
proof -
  have "id_matches iks sid [(''id'', ident), (''status'', JStr ''Running'')]"
    using assms(1,3) by (auto simp: id_matches_iff id_keys_def)
  moreover have "first_present sks [(''id'', ident), (''status'', JStr ''Running'')]
      = Some (JStr ''Running'')"
    by (rule first_present_only [where k = "''status''"])
       (use assms(2) in \<open>auto simp: status_keys_def\<close>)
  ultimately show ?thesis
    by (simp add: node_status_def status_text_def py_str_def)
qed

lemma wrapper_skipped:
  assumes "set iks = set id_keys" and "key \<notin> set id_keys"
  shows "find_status iks sks sid (JObj [(key, v)]) = find_status iks sks sid v"
proof -
  have "\<not> id_matches iks sid [(key, v)]"
    using assms by (auto simp: id_matches_iff)
  then show ?thesis
    by (simp add: node_status_def Let_def)
qed

lemma singleton_list:
  "find_status iks sks sid (JArr [x]) = find_status iks sks sid x"
  by (simp add: Let_def)

lemma nested_found:
  assumes "set iks = set id_keys" and "set sks = set status_keys"
    and "py_str ident = py_str sid"
  shows "find_status iks sks sid
           (JObj [(''data'', JObj [(''list'',
              JArr [JObj [(''id'', ident), (''status'', JStr ''Running'')]])])]) = ''Running''"
proof -
  let ?entry = "JObj [(''id'', ident), (''status'', JStr ''Running'')]"
  have "find_status iks sks sid (JObj [(''data'', JObj [(''list'', JArr [?entry])])]) =
        find_status iks sks sid (JObj [(''list'', JArr [?entry])])"
    by (rule wrapper_skipped [OF assms(1)]) (simp add: id_keys_def)
  also have "\<dots> = find_status iks sks sid (JArr [?entry])"
    by (rule wrapper_skipped [OF assms(1)]) (simp add: id_keys_def)
  also have "\<dots> = find_status iks sks sid ?entry"
    by (rule singleton_list)
  also have "\<dots> = ''Running''"
    by (rule record_found [OF assms])
  finally show ?thesis .
qed

lemma first_present_some:
  "first_present ks node = Some v \<Longrightarrow> \<exists>k\<in>set ks. map_of node k = Some v"
  by (induction ks) (auto split: option.splits)

lemma first_present_none:
  "(first_present ks node = None) = (\<forall>k\<in>set ks. map_of node k = None)"
  by (induction ks) (auto split: option.splits)

lemma node_status_some:
  assumes "set iks = set id_keys" and "set sks = set status_keys"
  shows "node_status iks sks sid node = Some s \<Longrightarrow> id_equals sid node \<and> status_of node s"
  using assms
  by (auto simp: node_status_def id_matches_iff id_equals_def status_of_def
        dest!: first_present_some split: if_splits)

lemma node_status_none:
  assumes "set iks = set id_keys" and "set sks = set status_keys"
  shows "(node_status iks sks sid node = None) =
     (\<not> id_equals sid node \<or> (\<forall>k\<in>set status_keys. map_of node k = None))"
  using assms
  by (auto simp: node_status_def id_matches_iff id_equals_def first_present_none)

lemma find_status_sound:
  "set iks = set id_keys \<Longrightarrow> set sks = set status_keys \<Longrightarrow>
   find_status iks sks sid doc \<noteq> [] \<Longrightarrow>
     \<exists>node\<in>set (dict_nodes doc). id_equals sid node
        \<and> status_of node (find_status iks sks sid doc)"
  "set iks = set id_keys \<Longrightarrow> set sks = set status_keys \<Longrightarrow>
   find_status_values iks sks sid kvs \<noteq> [] \<Longrightarrow>
     \<exists>node\<in>set (dict_nodes_values kvs). id_equals sid node
        \<and> status_of node (find_status_values iks sks sid kvs)"
  "set iks = set id_keys \<Longrightarrow> set sks = set status_keys \<Longrightarrow>
   find_status_items iks sks sid xs \<noteq> [] \<Longrightarrow>
     \<exists>node\<in>set (dict_nodes_items xs). id_equals sid node
        \<and> status_of node (find_status_items iks sks sid xs)"
proof (induction iks sks sid doc and iks sks sid kvs and iks sks sid xs
        rule: find_status_find_status_values_find_status_items.induct)
  case (1 iks sks sid node)
  show ?case
  proof (cases "node_status iks sks sid node")
    case None
    with 1 show ?thesis by auto
  next
    case (Some s)
    from node_status_some [OF "1.prems"(1,2) Some] Some show ?thesis by simp
  qed
next
  case (8 iks sks sid kv rest)
  then show ?case by (auto simp: Let_def split: if_splits)
next
  case (10 iks sks sid item rest)
  then show ?case by (auto simp: Let_def split: if_splits)
qed simp_all


lemma values_as_items:
  "find_status_values iks sks sid node = find_status_items iks sks sid (map snd node)"
  by (induction node) (simp_all add: Let_def)

lemma matching_node:
  assumes "set iks = set id_keys" and "set sks = set status_keys"
    and "id_equals sid node" and "\<exists>k\<in>set status_keys. map_of node k \<noteq> None"
  shows "status_of node (find_status iks sks sid (JObj node))"
proof -
  from assms have "node_status iks sks sid node \<noteq> None"
    by (simp add: node_status_none [OF assms(1,2)])
  then obtain s where s: "node_status iks sks sid node = Some s" by auto
  from node_status_some [OF assms(1,2) s] s show ?thesis by simp
qed

lemma other_node:
  assumes "set iks = set id_keys" and "set sks = set status_keys"
    and "\<not> id_equals sid node \<or> (\<forall>k\<in>set status_keys. map_of node k = None)"
  shows "find_status iks sks sid (JObj node) = find_status iks sks sid (JArr (map snd node))"
proof -
  from assms(3) have "node_status iks sks sid node = None"
    by (simp add: node_status_none [OF assms(1,2)])
  then show ?thesis by (simp add: values_as_items)
qed

text \<open>
  C5. Whatever the order in which the two key sets are visited: the extraction on the
  payload \<^verbatim>\<open>{"data":{"list":[{"id":"42","status":"Running"}]}}\<close> with \<^verbatim>\<open>strategy_id\<close> the
  string \<^verbatim>\<open>42\<close> returns \<^verbatim>\<open>Running\<close>, and so it does when the document has the number 42 or
  \<^verbatim>\<open>strategy_id\<close> is the number 42. For every document, a non-empty result is the
  status text of a dict of the document whose identifier equals \<^verbatim>\<open>strategy_id\<close> as
  strings, and the result is empty when no dict has such an identifier. A dict with
  such an identifier and a status key yields one of its status texts at once; any other
  dict is searched through its values in order; a list yields the first non-empty
  result of its items. The result depends on \<^verbatim>\<open>strategy_id\<close> through \<^verbatim>\<open>str(strategy_id)\<close>
  only.
\<close>

theorem find_status_compares_as_strings:
  assumes "set iks = set id_keys" and "set sks = set status_keys"
  shows "find_status iks sks (JStr ''42'') example_payload = ''Running''
       \<and> find_status iks sks (JStr ''42'') example_numeric = ''Running''
       \<and> find_status iks sks (JInt 42) example_payload = ''Running''
       \<and> (\<forall>doc sid. find_status iks sks sid doc \<noteq> [] \<longrightarrow>
            (\<exists>node\<in>set (dict_nodes doc).
               id_equals sid node \<and> status_of node (find_status iks sks sid doc)))
       \<and> (\<forall>doc sid. (\<forall>node\<in>set (dict_nodes doc). \<not> id_equals sid node) \<longrightarrow>
            find_status iks sks sid doc = [])
       \<and> (\<forall>node sid. id_equals sid node \<and> (\<exists>k\<in>set status_keys. map_of node k \<noteq> None) \<longrightarrow>
            status_of node (find_status iks sks sid (JObj node)))
       \<and> (\<forall>node sid. \<not> id_equals sid node \<or> (\<forall>k\<in>set status_keys. map_of node k = None) \<longrightarrow>
            find_status iks sks sid (JObj node) = find_status iks sks sid (JArr (map snd node)))
       \<and> (\<forall>x xs sid. find_status iks sks sid (JArr (x # xs)) =
            (if find_status iks sks sid x \<noteq> [] then find_status iks sks sid x
             else find_status iks sks sid (JArr xs)))
       \<and> (\<forall>doc sid sid'. py_str sid = py_str sid' \<longrightarrow>
            find_status iks sks sid doc = find_status iks sks sid' doc)
       \<and> (\<forall>node sid. id_matches iks sid node = id_equals sid node)"
proof (intro conjI allI impI)
  show "find_status iks sks (JStr ''42'') example_payload = ''Running''"
    unfolding example_payload_def by (rule nested_found [OF assms]) simp
  show "find_status iks sks (JStr ''42'') example_numeric = ''Running''"
    unfolding example_numeric_def
    by (rule nested_found [OF assms]) (simp only: str_42 py_str_JStr)
  show "find_status iks sks (JInt 42) example_payload = ''Running''"
    unfolding example_payload_def
    by (rule nested_found [OF assms]) (simp only: str_42 py_str_JStr)
  show "\<exists>node\<in>set (dict_nodes doc).
          id_equals sid node \<and> status_of node (find_status iks sks sid doc)"
    if "find_status iks sks sid doc \<noteq> []" for doc sid
    using that by (rule find_status_sound(1) [OF assms])
  show "find_status iks sks sid doc = []"
    if "\<forall>node\<in>set (dict_nodes doc). \<not> id_equals sid node" for doc sid
    using that find_status_sound(1) [OF assms, of sid doc] by blast
  show "status_of node (find_status iks sks sid (JObj node))"
    if "id_equals sid node \<and> (\<exists>k\<in>set status_keys. map_of node k \<noteq> None)" for node sid
    using that by (intro matching_node [OF assms]) simp_all
  show "find_status iks sks sid (JObj node) = find_status iks sks sid (JArr (map snd node))"
    if "\<not> id_equals sid node \<or> (\<forall>k\<in>set status_keys. map_of node k = None)" for node sid
    using that by (rule other_node [OF assms])
  show "find_status iks sks sid (JArr (x # xs)) =
      (if find_status iks sks sid x \<noteq> [] then find_status iks sks sid x
       else find_status iks sks sid (JArr xs))" for x xs sid
    by (simp add: Let_def)
  show "find_status iks sks sid doc = find_status iks sks sid' doc"
    if "py_str sid = py_str sid'" for doc sid sid'
    using that by (rule find_status_by_str)
  show "id_matches iks sid node = id_equals sid node" for node sid
    by (simp add: id_matches_iff id_equals_def assms(1))
qed

lemma two_entities_nodes:
  "dict_nodes two_entities =
     [[(''data'',
        JArr [JObj [(''id'', JInt 43), (''status'', JStr ''Stopped'')],
              JObj [(''deployment_id'', JStr ''42''),
                    (''execution_status'', JObj [(''label'', JStr ''Running'')])]])],
      [(''id'', JInt 43), (''status'', JStr ''Stopped'')],
      [(''deployment_id'', JStr ''42''),
       (''execution_status'', JObj [(''label'', JStr ''Running'')])],
      [(''label'', JStr ''Running'')]]"
  by (simp add: two_entities_def)

lemma str_small:
  "py_str (JInt 43) = ''43''" "py_str (JInt 44) = ''44''"
  by (simp_all add: py_str_def str_int_def digits.simps)

theorem find_status_compares_as_strings_witness:
  "find_status id_keys status_keys (JStr ''42'') example_payload = ''Running''
   \<and> find_status (rev id_keys) (rev status_keys) (JInt 42) example_payload = ''Running''
   \<and> find_status id_keys status_keys (JInt 44) two_entities = []
   \<and> find_status id_keys status_keys (JInt 42) two_entities = ''Running''
   \<and> find_status id_keys status_keys (JStr ''43'') two_entities = ''Stopped''
   \<and> id_equals (JStr ''43'') [(''id'', JInt 43), (''status'', JStr ''Stopped'')]
   \<and> status_of [(''id'', JInt 43), (''status'', JStr ''Stopped'')] ''Stopped''"
proof -
  note direct = find_status_compares_as_strings [OF refl refl]
  have r: "set (rev id_keys) = set id_keys" "set (rev status_keys) = set status_keys"
    by simp_all
  note reversed = find_status_compares_as_strings [OF r]
  have none: "\<forall>node\<in>set (dict_nodes two_entities). \<not> id_equals (JInt 44) node"
    by (simp add: two_entities_nodes id_equals_def id_keys_def str_small str_42 py_str_JStr)
  have "find_status id_keys status_keys (JInt 44) two_entities = []"
    using direct none by blast
  moreover have "find_status id_keys status_keys (JInt 42) two_entities = ''Running''"
    "find_status id_keys status_keys (JStr ''43'') two_entities = ''Stopped''"
    by (simp_all add: two_entities_def find_eval str_small str_42 digits.simps str_int_def)
  moreover have "id_equals (JStr ''43'') [(''id'', JInt 43), (''status'', JStr ''Stopped'')]"
    "status_of [(''id'', JInt 43), (''status'', JStr ''Stopped'')] ''Stopped''"
    by (simp_all add: id_equals_def status_of_def id_keys_def status_keys_def status_text_def
          str_small py_str_JStr)
  ultimately show ?thesis using direct reversed by blast
qed

section \<open>The status resolver: markup fallback\<close>

lemma feed_simps [simp]:
  "feed ps [] = ps"
  "feed ps (e # es) = feed (handle ps e) es"
  "feed ps (xs @ ys) = feed (feed ps xs) ys"
  by (simp_all add: feed_def)























lemma strip_Paused: "py_strip '' Paused '' = ''Paused''"
  by (simp add: py_strip_def py_isspace_def)

lemma not_in_Paused: "\<not> py_in ''Status'' ''Paused''"
  by simp



end
